theory Spec2Isabelle
  imports Main
begin

section \<open>Values at the JSON boundary\<close>

text \<open>
  Request and response bodies are JSON values. An object is the list of its members and is
  read with \<open>map_of\<close>; a member that is absent reads as \<open>None\<close> (JavaScript's
  \<open>undefined\<close>). Strings are lists of code units; the accented letters of the
  messages are written with their code (\<open>0xE3\<close> is a-tilde, and so on), and
  \<open>length\<close> is JavaScript's \<open>.length\<close>.
\<close>

datatype jsval =
    JNull
  | JBool bool
  | JNum int
  | JStr string
  | JArr "jsval list"
  | JObj "(string \<times> jsval) list"

type_synonym response = "nat \<times> jsval"

definition message_json :: "string \<Rightarrow> jsval" where
  "message_json m = JObj [(''message'', JStr m)]"

definition given :: "jsval \<Rightarrow> string \<Rightarrow> jsval option" where
  "given body k = (case body of JObj kvs \<Rightarrow> map_of kvs k | _ \<Rightarrow> None)"

subsection \<open>The message literals of the sources\<close>

definition msg_nao_autorizado :: string where
  "msg_nao_autorizado = ''N'' @ [CHR 0xE3] @ ''o autorizado''"

definition msg_email_em_uso :: string where
  "msg_email_em_uso = ''Email j'' @ [CHR 0xE1] @ '' est'' @ [CHR 0xE1] @ '' em uso''"

definition msg_erro_interno :: string where
  "msg_erro_interno = ''Erro interno do servidor''"

definition msg_credenciais_invalidas :: string where
  "msg_credenciais_invalidas = ''Email ou senha inv'' @ [CHR 0xE1] @ ''lidos''"

definition msg_logout_ok :: string where
  "msg_logout_ok = ''Logout realizado com sucesso''"

definition msg_usuario_nao_encontrado :: string where
  "msg_usuario_nao_encontrado =
     ''Usu'' @ [CHR 0xE1] @ ''rio n'' @ [CHR 0xE3] @ ''o encontrado''"

definition msg_erro_criar :: string where
  "msg_erro_criar = ''Erro ao criar anota'' @ [CHR 0xE7, CHR 0xE3] @ ''o''"

definition msg_anotacao_nao_encontrada :: string where
  "msg_anotacao_nao_encontrada =
     ''Anota'' @ [CHR 0xE7, CHR 0xE3] @ ''o n'' @ [CHR 0xE3] @ ''o encontrada''"

definition msg_erro_atualizar :: string where
  "msg_erro_atualizar = ''Erro ao atualizar anota'' @ [CHR 0xE7, CHR 0xE3] @ ''o''"

definition msg_anotacao_excluida :: string where
  "msg_anotacao_excluida =
     ''Anota'' @ [CHR 0xE7, CHR 0xE3] @ ''o exclu'' @ [CHR 0xED] @ ''da com sucesso''"

definition msg_erro_excluir :: string where
  "msg_erro_excluir = ''Erro ao excluir anota'' @ [CHR 0xE7, CHR 0xE3] @ ''o''"

definition msg_email_invalido :: string where
  "msg_email_invalido = ''Email inv'' @ [CHR 0xE1] @ ''lido''"

definition msg_senha_curta :: string where
  "msg_senha_curta = ''Senha deve ter pelo menos 6 caracteres''"

definition msg_nome_obrigatorio :: string where
  "msg_nome_obrigatorio = ''Nome '' @ [CHR 0xE9] @ '' obrigat'' @ [CHR 0xF3] @ ''rio''"

definition msg_senha_obrigatoria :: string where
  "msg_senha_obrigatoria = ''Senha '' @ [CHR 0xE9] @ '' obrigat'' @ [CHR 0xF3] @ ''ria''"

definition msg_tarefa_obrigatoria :: string where
  "msg_tarefa_obrigatoria =
     ''Nome da tarefa '' @ [CHR 0xE9] @ '' obrigat'' @ [CHR 0xF3] @ ''rio''"

definition msg_data_obrigatoria :: string where
  "msg_data_obrigatoria =
     ''Data de conclus'' @ [CHR 0xE3] @ ''o '' @ [CHR 0xE9] @ '' obrigat'' @ [CHR 0xF3] @ ''ria''"

section \<open>shared/schema.ts: rows and validation schemas\<close>

text \<open>
  The status column is text typed as the union of two literals,
  \<open>"A Fazer"\<close> and \<open>"Conclu\<dots>da"\<close> (with i-acute, code \<open>0xED\<close>).
\<close>

datatype status = A_Fazer | Concluida

definition status_text :: "status \<Rightarrow> string" where
  "status_text s = (case s of A_Fazer \<Rightarrow> ''A Fazer''
                            | Concluida \<Rightarrow> ''Conclu'' @ [CHR 0xED] @ ''da'')"

text \<open>\<open>InsertUser\<close> is a user row without its id; \<open>User\<close> adds the id.\<close>

record InsertUser =
  name :: string
  email :: string
  password :: string

record User = InsertUser +
  user_id :: int

text \<open>
  \<open>InsertNote\<close> omits id and userId; \<open>createNote\<close> takes
  \<open>InsertNote & { userId }\<close>; \<open>Note\<close> is the full row.
\<close>

record InsertNote =
  title :: string
  createdDate :: string
  completedDate :: string
  status :: status

record OwnedInsertNote = InsertNote +
  userId :: int

record Note = OwnedInsertNote +
  note_id :: int

text \<open>\<open>Partial<InsertNote>\<close>: every key may be absent.\<close>

record PartialInsertNote =
  p_title :: "string option"
  p_createdDate :: "string option"
  p_completedDate :: "string option"
  p_status :: "status option"

record LoginUser =
  l_email :: string
  l_password :: string

subsection \<open>What the libraries and the database decide\<close>

text \<open>
  The sources call into a validation library, a password hashing library and a
  relational database whose code is not part of the repository. What they compute is a
  parameter of the model:
  \<^item> \<open>is_email\<close>: the check behind \<open>z.string().email()\<close>;
  \<^item> \<open>bcrypt_hash pw salt\<close>: \<open>bcrypt.hash(pw, 10)\<close>, the salt drawn by the
    library made an argument; \<open>bcrypt_compare pw h\<close>: \<open>bcrypt.compare(pw, h)\<close>;
  \<^item> \<open>fromZodError\<close>: the text that \<open>fromZodError(error).message\<close> builds from the
    issues;
  \<^item> \<open>date_in\<close>: what a \<open>date\<close> column does with a text: \<open>None\<close> when the
    database rejects it (the statement raises), otherwise the date as the column gives
    it back;
  \<^item> \<open>text_ok\<close>: whether a \<open>text\<close> column takes the string (it is then stored
    as it is);
  \<^item> \<open>parseInt\<close>: \<open>parseInt(req.params.id)\<close>, \<open>None\<close> when the result is
    not a number the integer id column can be compared with (\<open>NaN\<close>, out of
    range), on which the query raises.
\<close>

datatype issue_code = invalid_type | too_small | invalid_string | invalid_enum_value

datatype issue = Issue (issue_path: "string list") (issue_code: issue_code)
                       (issue_message: "string option")

record env =
  is_email :: "string \<Rightarrow> bool"
  bcrypt_hash :: "string \<Rightarrow> string \<Rightarrow> string"
  bcrypt_compare :: "string \<Rightarrow> string \<Rightarrow> bool"
  fromZodError :: "issue list \<Rightarrow> string"
  date_in :: "string \<Rightarrow> string option"
  text_ok :: "string \<Rightarrow> bool"
  parseInt :: "string \<Rightarrow> int option"

subsection \<open>Field validators\<close>

text \<open>
  An issue carries the path of the member, the library's issue code and the message the
  schema gives (\<open>None\<close>: the library's own wording). \<open>z.string()\<close> rejects a
  member that is absent or not a string before any further check runs.
\<close>

definition z_string :: "string \<Rightarrow> jsval option \<Rightarrow> issue + string" where
  "z_string k v = (case v of Some (JStr s) \<Rightarrow> Inr s
                           | _ \<Rightarrow> Inl (Issue [k] invalid_type None))"

definition z_string_min :: "nat \<Rightarrow> string \<Rightarrow> string \<Rightarrow> jsval option \<Rightarrow> issue + string" where
  "z_string_min n msg k v =
     (case z_string k v of
        Inl i \<Rightarrow> Inl i
      | Inr s \<Rightarrow> if length s < n then Inl (Issue [k] too_small (Some msg)) else Inr s)"

definition z_string_email :: "env \<Rightarrow> string \<Rightarrow> string \<Rightarrow> jsval option \<Rightarrow> issue + string" where
  "z_string_email env msg k v =
     (case z_string k v of
        Inl i \<Rightarrow> Inl i
      | Inr s \<Rightarrow> if is_email env s then Inr s else Inl (Issue [k] invalid_string (Some msg)))"

definition z_enum_status :: "string \<Rightarrow> jsval option \<Rightarrow> issue + status" where
  "z_enum_status k v =
     (case v of
        Some (JStr s) \<Rightarrow>
          if s = status_text A_Fazer then Inr A_Fazer
          else if s = status_text Concluida then Inr Concluida
          else Inl (Issue [k] invalid_enum_value None)
      | _ \<Rightarrow> Inl (Issue [k] invalid_type None))"

text \<open>\<open>.partial()\<close>: an absent member is accepted and stays absent.\<close>

definition z_optional :: "(jsval option \<Rightarrow> issue + 'a) \<Rightarrow> jsval option \<Rightarrow> issue + 'a option" where
  "z_optional f v =
     (case v of
        None \<Rightarrow> Inr None
      | Some x \<Rightarrow> (case f (Some x) of Inl i \<Rightarrow> Inl i | Inr a \<Rightarrow> Inr (Some a)))"

definition issues_of :: "issue + 'a \<Rightarrow> issue list" where
  "issues_of r = (case r of Inl i \<Rightarrow> [i] | Inr _ \<Rightarrow> [])"

subsection \<open>The object schemas\<close>

text \<open>
  Each schema reads only its own keys, in the order of the table's columns, collects the
  issues of all of them, and builds its result from the validated members alone: any
  other member of the body (an \<open>id\<close>, a \<open>userId\<close>) is dropped. A body that is not
  an object is one issue with the empty path.
\<close>

definition insertUserSchema :: "env \<Rightarrow> jsval \<Rightarrow> issue list + InsertUser" where
  "insertUserSchema env body =
     (case body of
        JObj kvs \<Rightarrow>
          (let n = z_string_min 1 msg_nome_obrigatorio ''name'' (map_of kvs ''name'');
               e = z_string_email env msg_email_invalido ''email'' (map_of kvs ''email'');
               p = z_string_min 6 msg_senha_curta ''password'' (map_of kvs ''password'')
           in case (n, e, p) of
                (Inr n', Inr e', Inr p') \<Rightarrow> Inr \<lparr>name = n', email = e', password = p'\<rparr>
              | _ \<Rightarrow> Inl (issues_of n @ issues_of e @ issues_of p))
      | _ \<Rightarrow> Inl [Issue [] invalid_type None])"

definition loginSchema :: "env \<Rightarrow> jsval \<Rightarrow> issue list + LoginUser" where
  "loginSchema env body =
     (case body of
        JObj kvs \<Rightarrow>
          (let e = z_string_email env msg_email_invalido ''email'' (map_of kvs ''email'');
               p = z_string_min 1 msg_senha_obrigatoria ''password'' (map_of kvs ''password'')
           in case (e, p) of
                (Inr e', Inr p') \<Rightarrow> Inr \<lparr>l_email = e', l_password = p'\<rparr>
              | _ \<Rightarrow> Inl (issues_of e @ issues_of p))
      | _ \<Rightarrow> Inl [Issue [] invalid_type None])"

definition insertNoteSchema :: "jsval \<Rightarrow> issue list + InsertNote" where
  "insertNoteSchema body =
     (case body of
        JObj kvs \<Rightarrow>
          (let t = z_string_min 1 msg_tarefa_obrigatoria ''title'' (map_of kvs ''title'');
               c = z_string ''createdDate'' (map_of kvs ''createdDate'');
               d = z_string_min 1 msg_data_obrigatoria ''completedDate''
                     (map_of kvs ''completedDate'');
               s = z_enum_status ''status'' (map_of kvs ''status'')
           in case (t, c, d, s) of
                (Inr t', Inr c', Inr d', Inr s') \<Rightarrow>
                  Inr \<lparr>title = t', createdDate = c', completedDate = d', status = s'\<rparr>
              | _ \<Rightarrow> Inl (issues_of t @ issues_of c @ issues_of d @ issues_of s))
      | _ \<Rightarrow> Inl [Issue [] invalid_type None])"

definition insertNoteSchema_partial :: "jsval \<Rightarrow> issue list + PartialInsertNote" where
  "insertNoteSchema_partial body =
     (case body of
        JObj kvs \<Rightarrow>
          (let t = z_optional (z_string_min 1 msg_tarefa_obrigatoria ''title'')
                     (map_of kvs ''title'');
               c = z_optional (z_string ''createdDate'') (map_of kvs ''createdDate'');
               d = z_optional (z_string_min 1 msg_data_obrigatoria ''completedDate'')
                     (map_of kvs ''completedDate'');
               s = z_optional (z_enum_status ''status'') (map_of kvs ''status'')
           in case (t, c, d, s) of
                (Inr t', Inr c', Inr d', Inr s') \<Rightarrow>
                  Inr \<lparr>p_title = t', p_createdDate = c', p_completedDate = d', p_status = s'\<rparr>
              | _ \<Rightarrow> Inl (issues_of t @ issues_of c @ issues_of d @ issues_of s))
      | _ \<Rightarrow> Inl [Issue [] invalid_type None])"

section \<open>server/storage.ts: the tables and DatabaseStorage\<close>

text \<open>
  The database holds the two tables, in insertion order, and the counter of each identity
  column (the id the next insert gets). \<open>sessions\<close> is the session store: the
  \<open>userId\<close> saved under a session id, if any. A request comes with its session id:
  the one of its cookie, or a new one with nothing saved under it.

  The database is taken to be reachable: a lost connection, which every handler turns into
  a 500 response, is not modelled. The errors that the declared schema makes the database
  raise are: a value a column's type rejects (before the statement runs), an identity
  counter that has run past the largest value of the \<open>integer\<close> column
  (\<open>max_integer\<close>), a duplicate primary key or email, and a note whose
  \<open>userId\<close> is no user's id (the last two after the identity counter has advanced,
  which is not undone).
\<close>

type_synonym sid = nat

definition max_integer :: int where
  "max_integer = 2147483647"

record state =
  users :: "User list"
  notes_tbl :: "Note list"
  users_id_seq :: int
  notes_id_seq :: int
  sessions :: "sid \<rightharpoonup> int"

definition init_state :: state where
  "init_state = \<lparr>users = [], notes_tbl = [], users_id_seq = 1, notes_id_seq = 1,
                  sessions = Map.empty\<rparr>"

text \<open>
  \<open>Error\<close> is what the query builder or the database raises; a handler's catch block
  answers it with 500. A validation error is the \<open>Inl\<close> result of a schema.
\<close>

datatype exn = Error

definition getUser :: "state \<Rightarrow> int \<Rightarrow> User option" where
  "getUser st i = find (\<lambda>u. user_id u = i) (users st)"

definition getUserByEmail :: "state \<Rightarrow> string \<Rightarrow> User option" where
  "getUserByEmail st e = find (\<lambda>u. email u = e) (users st)"

definition createUser :: "env \<Rightarrow> state \<Rightarrow> InsertUser \<Rightarrow> state \<times> (exn + User)" where
  "createUser env st insertUser =
     (if \<not> (text_ok env (name insertUser) \<and> text_ok env (email insertUser)
             \<and> text_ok env (password insertUser))
      then (st, Inl Error)
      else if max_integer < users_id_seq st then (st, Inl Error)
      else
        let i = users_id_seq st;
            st1 = st\<lparr>users_id_seq := i + 1\<rparr>
        in if i \<in> set (map user_id (users st)) \<or> email insertUser \<in> set (map email (users st))
           then (st1, Inl Error)
           else
             let u = \<lparr>name = name insertUser, email = email insertUser,
                      password = password insertUser, user_id = i\<rparr>
             in (st1\<lparr>users := users st @ [u]\<rparr>, Inr u))"

definition getNotesByUserId :: "state \<Rightarrow> int \<Rightarrow> Note list" where
  "getNotesByUserId st uid = filter (\<lambda>n. userId n = uid) (notes_tbl st)"

definition createNote :: "env \<Rightarrow> state \<Rightarrow> OwnedInsertNote \<Rightarrow> state \<times> (exn + Note)" where
  "createNote env st x =
     (case (text_ok env (title x), date_in env (createdDate x), date_in env (completedDate x)) of
        (True, Some c, Some d) \<Rightarrow>
          (let i = notes_id_seq st;
               st1 = st\<lparr>notes_id_seq := i + 1\<rparr>
           in if max_integer < i then (st, Inl Error)
              else if i \<in> set (map note_id (notes_tbl st))
                      \<or> userId x \<notin> set (map user_id (users st))
              then (st1, Inl Error)
              else
                let newNote = \<lparr>title = title x, createdDate = c, completedDate = d,
                                status = status x, userId = userId x, note_id = i\<rparr>
                in (st1\<lparr>notes_tbl := notes_tbl st @ [newNote]\<rparr>, Inr newNote))
      | _ \<Rightarrow> (st, Inl Error))"

text \<open>
  \<open>updateNote\<close>: \<open>UPDATE notes SET \<dots> WHERE id = ? AND user_id = ? RETURNING *\<close>.
  \<open>bind_update\<close> is the SET clause as the database takes it: there is none for an
  update with no column (the query builder raises on it) or with a value that a column
  rejects. Only the four columns of \<open>PartialInsertNote\<close> can be set.
\<close>

definition bind_date :: "env \<Rightarrow> string option \<Rightarrow> string option option" where
  "bind_date env v = (case v of None \<Rightarrow> Some None
                              | Some d \<Rightarrow> map_option Some (date_in env d))"

definition bind_update :: "env \<Rightarrow> PartialInsertNote \<Rightarrow> PartialInsertNote option" where
  "bind_update env noteUpdate =
     (if p_title noteUpdate = None \<and> p_createdDate noteUpdate = None
         \<and> p_completedDate noteUpdate = None \<and> p_status noteUpdate = None
      then None
      else
        case (bind_date env (p_createdDate noteUpdate),
              bind_date env (p_completedDate noteUpdate)) of
          (Some c, Some d) \<Rightarrow>
            if (case p_title noteUpdate of None \<Rightarrow> True | Some t \<Rightarrow> text_ok env t)
            then Some (noteUpdate\<lparr>p_createdDate := c, p_completedDate := d\<rparr>)
            else None
        | _ \<Rightarrow> None)"

definition set_columns :: "PartialInsertNote \<Rightarrow> Note \<Rightarrow> Note" where
  "set_columns cols n =
     n\<lparr>title := (case p_title cols of None \<Rightarrow> title n | Some t \<Rightarrow> t),
       createdDate := (case p_createdDate cols of None \<Rightarrow> createdDate n | Some c \<Rightarrow> c),
       completedDate := (case p_completedDate cols of None \<Rightarrow> completedDate n | Some d \<Rightarrow> d),
       status := (case p_status cols of None \<Rightarrow> status n | Some s \<Rightarrow> s)\<rparr>"

definition updateNote ::
  "env \<Rightarrow> state \<Rightarrow> int \<Rightarrow> int \<Rightarrow> PartialInsertNote \<Rightarrow> state \<times> (exn + Note option)" where
  "updateNote env st i uid noteUpdate =
     (case bind_update env noteUpdate of
        None \<Rightarrow> (st, Inl Error)
      | Some cols \<Rightarrow>
          let ns = map (\<lambda>n. if note_id n = i \<and> userId n = uid then set_columns cols n else n)
                       (notes_tbl st)
          in (st\<lparr>notes_tbl := ns\<rparr>, Inr (find (\<lambda>n. note_id n = i \<and> userId n = uid) ns)))"

definition deleteNote :: "state \<Rightarrow> int \<Rightarrow> int \<Rightarrow> state \<times> bool" where
  "deleteNote st i uid =
     (st\<lparr>notes_tbl := filter (\<lambda>n. \<not> (note_id n = i \<and> userId n = uid)) (notes_tbl st)\<rparr>,
      0 < length (filter (\<lambda>n. note_id n = i \<and> userId n = uid) (notes_tbl st)))"

section \<open>The route handlers\<close>

definition user_json :: "User \<Rightarrow> jsval" where
  "user_json u =
     JObj [(''user'', JObj [(''id'', JNum (user_id u)), (''name'', JStr (name u)),
                            (''email'', JStr (email u))])]"

definition note_json :: "Note \<Rightarrow> jsval" where
  "note_json n =
     JObj [(''id'', JNum (note_id n)), (''userId'', JNum (userId n)),
           (''title'', JStr (title n)), (''createdDate'', JStr (createdDate n)),
           (''completedDate'', JStr (completedDate n)),
           (''status'', JStr (status_text (status n)))]"

definition zod_response :: "env \<Rightarrow> issue list \<Rightarrow> response" where
  "zod_response env issues = (400, message_json (fromZodError env issues))"

text \<open>
  \<open>requireAuth\<close>: \<open>!req.session.userId\<close> holds when nothing is saved under the
  session id, and also for the id 0. Otherwise \<open>next\<close> runs, with the user id.
\<close>

definition requireAuth :: "state \<Rightarrow> sid \<Rightarrow> (int \<Rightarrow> state \<times> response) \<Rightarrow> state \<times> response" where
  "requireAuth st s next =
     (case sessions st s of
        None \<Rightarrow> (st, (401, message_json msg_nao_autorizado))
      | Some uid \<Rightarrow> if uid = 0 then (st, (401, message_json msg_nao_autorizado)) else next uid)"

definition post_auth_register :: "env \<Rightarrow> string \<Rightarrow> state \<Rightarrow> sid \<Rightarrow> jsval \<Rightarrow> state \<times> response" where
  "post_auth_register env salt st s body =
     (case insertUserSchema env body of
        Inl issues \<Rightarrow> (st, zod_response env issues)
      | Inr validatedData \<Rightarrow>
          (case getUserByEmail st (email validatedData) of
             Some existingUser \<Rightarrow> (st, (400, message_json msg_email_em_uso))
           | None \<Rightarrow>
               (let hashedPassword = bcrypt_hash env (password validatedData) salt
                in case createUser env st
                          \<lparr>name = name validatedData, email = email validatedData,
                           password = hashedPassword\<rparr> of
                     (st', Inl e) \<Rightarrow> (st', (500, message_json msg_erro_interno))
                   | (st', Inr u) \<Rightarrow>
                       (st'\<lparr>sessions := (sessions st')(s \<mapsto> user_id u)\<rparr>,
                        (200, user_json u)))))"

definition post_auth_login :: "env \<Rightarrow> state \<Rightarrow> sid \<Rightarrow> jsval \<Rightarrow> state \<times> response" where
  "post_auth_login env st s body =
     (case loginSchema env body of
        Inl issues \<Rightarrow> (st, zod_response env issues)
      | Inr validatedData \<Rightarrow>
          (case getUserByEmail st (l_email validatedData) of
             None \<Rightarrow> (st, (401, message_json msg_credenciais_invalidas))
           | Some u \<Rightarrow>
               if \<not> bcrypt_compare env (l_password validatedData) (password u)
               then (st, (401, message_json msg_credenciais_invalidas))
               else (st\<lparr>sessions := (sessions st)(s \<mapsto> user_id u)\<rparr>, (200, user_json u))))"

definition post_auth_logout :: "state \<Rightarrow> sid \<Rightarrow> state \<times> response" where
  "post_auth_logout st s =
     (st\<lparr>sessions := (sessions st)(s := None)\<rparr>, (200, message_json msg_logout_ok))"

definition get_auth_me :: "state \<Rightarrow> sid \<Rightarrow> state \<times> response" where
  "get_auth_me st s =
     requireAuth st s (\<lambda>uid.
       case getUser st uid of
         None \<Rightarrow> (st, (404, message_json msg_usuario_nao_encontrado))
       | Some u \<Rightarrow> (st, (200, user_json u)))"

definition get_notes :: "state \<Rightarrow> sid \<Rightarrow> state \<times> response" where
  "get_notes st s =
     requireAuth st s (\<lambda>uid. (st, (200, JArr (map note_json (getNotesByUserId st uid)))))"

definition post_notes :: "env \<Rightarrow> state \<Rightarrow> sid \<Rightarrow> jsval \<Rightarrow> state \<times> response" where
  "post_notes env st s body =
     requireAuth st s (\<lambda>uid.
       case insertNoteSchema body of
         Inl issues \<Rightarrow> (st, zod_response env issues)
       | Inr validatedData \<Rightarrow>
           (case createNote env st
                   \<lparr>title = title validatedData, createdDate = createdDate validatedData,
                    completedDate = completedDate validatedData,
                    status = status validatedData, userId = uid\<rparr> of
              (st', Inl e) \<Rightarrow> (st', (500, message_json msg_erro_criar))
            | (st', Inr n) \<Rightarrow> (st', (200, note_json n))))"

definition put_notes_id :: "env \<Rightarrow> state \<Rightarrow> sid \<Rightarrow> string \<Rightarrow> jsval \<Rightarrow> state \<times> response" where
  "put_notes_id env st s idParam body =
     requireAuth st s (\<lambda>uid.
       let noteId = parseInt env idParam
       in case insertNoteSchema_partial body of
            Inl issues \<Rightarrow> (st, zod_response env issues)
          | Inr validatedData \<Rightarrow>
              (case noteId of
                 None \<Rightarrow> (st, (500, message_json msg_erro_atualizar))
               | Some i \<Rightarrow>
                   (case updateNote env st i uid validatedData of
                      (st', Inl e) \<Rightarrow> (st', (500, message_json msg_erro_atualizar))
                    | (st', Inr None) \<Rightarrow>
                        (st', (404, message_json msg_anotacao_nao_encontrada))
                    | (st', Inr (Some updatedNote)) \<Rightarrow>
                        (st', (200, note_json updatedNote)))))"

definition delete_notes_id :: "env \<Rightarrow> state \<Rightarrow> sid \<Rightarrow> string \<Rightarrow> state \<times> response" where
  "delete_notes_id env st s idParam =
     requireAuth st s (\<lambda>uid.
       case parseInt env idParam of
         None \<Rightarrow> (st, (500, message_json msg_erro_excluir))
       | Some noteId \<Rightarrow>
           (case deleteNote st noteId uid of
              (st', False) \<Rightarrow> (st', (404, message_json msg_anotacao_nao_encontrada))
            | (st', True) \<Rightarrow> (st', (200, message_json msg_anotacao_excluida))))"

section \<open>client/src/pages/dashboard.tsx: markCompletedMutation\<close>

text \<open>
  The mutation sends \<open>PUT /api/notes/:id\<close> with the status
  \<open>"Conclu\<dots>da"\<close> and \<open>completedDate\<close> set to \<open>today\<close>, the date part of
  \<open>new Date().toISOString()\<close>; the clock's reading is an argument here.
\<close>

definition markCompleted_body :: "string \<Rightarrow> jsval" where
  "markCompleted_body today =
     JObj [(''status'', JStr (status_text Concluida)), (''completedDate'', JStr today)]"

definition markCompleted :: "env \<Rightarrow> state \<Rightarrow> sid \<Rightarrow> string \<Rightarrow> string \<Rightarrow> state \<times> response" where
  "markCompleted env st s idParam today =
     put_notes_id env st s idParam (markCompleted_body today)"

section \<open>Requests, runs and reachable states\<close>

datatype request =
    Register string sid jsval
  | Login sid jsval
  | Logout sid
  | Me sid
  | ListNotes sid
  | CreateNote sid jsval
  | UpdateNote sid string jsval
  | DeleteNote sid string

fun handle :: "env \<Rightarrow> state \<Rightarrow> request \<Rightarrow> state \<times> response" where
  "handle env st (Register salt s body) = post_auth_register env salt st s body"
| "handle env st (Login s body) = post_auth_login env st s body"
| "handle env st (Logout s) = post_auth_logout st s"
| "handle env st (Me s) = get_auth_me st s"
| "handle env st (ListNotes s) = get_notes st s"
| "handle env st (CreateNote s body) = post_notes env st s body"
| "handle env st (UpdateNote s idParam body) = put_notes_id env st s idParam body"
| "handle env st (DeleteNote s idParam) = delete_notes_id env st s idParam"

definition step :: "env \<Rightarrow> state \<Rightarrow> request \<Rightarrow> state" where
  "step env st r = fst (handle env st r)"

definition run :: "env \<Rightarrow> state \<Rightarrow> request list \<Rightarrow> state" where
  "run env st rs = foldl (step env) st rs"

text \<open>
  The states the server can be in: it starts with empty tables, identity counters at 1 and
  no session, and changes state only by handling requests.
\<close>

inductive reachable :: "env \<Rightarrow> state \<Rightarrow> bool" for env :: env where
  reachable_init: "reachable env init_state"
| reachable_step: "reachable env st \<Longrightarrow> reachable env (step env st r)"

subsection \<open>Invariants of the reachable states\<close>

definition notes_inv :: "state \<Rightarrow> bool" where
  "notes_inv st \<longleftrightarrow>
     distinct (map note_id (notes_tbl st))
     \<and> list_all (\<lambda>n. note_id n < notes_id_seq st) (notes_tbl st)"

definition users_inv :: "state \<Rightarrow> bool" where
  "users_inv st \<longleftrightarrow>
     distinct (map user_id (users st))
     \<and> distinct (map email (users st))
     \<and> list_all (\<lambda>u. 0 < user_id u \<and> user_id u < users_id_seq st) (users st)
     \<and> 0 < users_id_seq st"

definition sessions_inv :: "state \<Rightarrow> bool" where
  "sessions_inv st \<longleftrightarrow> (\<forall>s uid. sessions st s = Some uid \<longrightarrow> uid \<in> set (map user_id (users st)))"

text \<open>
  Every stored user went through \<open>insertUserSchema\<close>: the email passed the email check,
  and the stored password is the hash of a password of six or more code units.
\<close>

definition registered :: "env \<Rightarrow> User \<Rightarrow> bool" where
  "registered env u \<longleftrightarrow>
     is_email env (email u)
     \<and> (\<exists>pw salt. 6 \<le> length pw \<and> password u = bcrypt_hash env pw salt)"

definition credentials_inv :: "env \<Rightarrow> state \<Rightarrow> bool" where
  "credentials_inv env st \<longleftrightarrow> (\<forall>u \<in> set (users st). registered env u)"

section \<open>The specification's notion of a calendar date\<close>

text \<open>
  The specification asks for dates that are "well-formed calendar dates". This predicate
  is that notion, written from the specification's words and not from the sources: the
  ISO form \<open>YYYY-MM-DD\<close> with a month from 1 to 12 and a day that the month has.
\<close>

definition digit :: "char \<Rightarrow> bool" where
  "digit c \<longleftrightarrow> c \<in> set ''0123456789''"

definition number :: "string \<Rightarrow> nat" where
  "number cs = foldl (\<lambda>a c. 10 * a + (of_char c - 48)) 0 cs"

definition days_in_month :: "nat \<Rightarrow> nat \<Rightarrow> nat" where
  "days_in_month y m =
     (if m = 2 then (if y mod 4 = 0 \<and> (y mod 100 \<noteq> 0 \<or> y mod 400 = 0) then 29 else 28)
      else if m \<in> {4, 6, 9, 11} then 30 else 31)"

definition spec_calendar_date :: "string \<Rightarrow> bool" where
  "spec_calendar_date s \<longleftrightarrow>
     length s = 10 \<and> s ! 4 = CHR ''-'' \<and> s ! 7 = CHR ''-''
     \<and> list_all digit (take 4 s @ take 2 (drop 5 s) @ drop 8 s)
     \<and> (let y = number (take 4 s); m = number (take 2 (drop 5 s)); d = number (drop 8 s)
        in 1 \<le> m \<and> m \<le> 12 \<and> 1 \<le> d \<and> d \<le> days_in_month y m)"

section \<open>An instance of the parameters, and concrete states\<close>

text \<open>
  A small instance of the parameters on which the model runs on concrete requests: an
  email has an at-sign, the hash of a password is the password behind a marker, a date
  column takes the ISO calendar dates and gives them back as they are, and takes the date
  \<open>Jan 5 2024\<close>, written in another style, which it gives back as
  \<open>2024-01-05\<close>; a text column takes every string without a zero code unit, and the
  ids 1 to 3 are parsed.
\<close>

definition demo_env :: env where
  "demo_env =
     \<lparr>is_email = (\<lambda>s. CHR ''@'' \<in> set s),
      bcrypt_hash = (\<lambda>pw salt. CHR ''#'' # pw),
      bcrypt_compare = (\<lambda>pw h. h = CHR ''#'' # pw),
      fromZodError = (\<lambda>issues. ''Validation error''),
      date_in = (\<lambda>s. if spec_calendar_date s then Some s
                     else if s = ''Jan 5 2024'' then Some ''2024-01-05'' else None),
      text_ok = (\<lambda>s. CHR 0x00 \<notin> set s),
      parseInt = (\<lambda>s. if s = ''1'' then Some 1 else if s = ''2'' then Some 2
                       else if s = ''3'' then Some 3 else None)\<rparr>"

definition ana_body :: jsval where
  "ana_body = JObj [(''name'', JStr ''Ana''), (''email'', JStr ''ana@x.com''),
                    (''password'', JStr ''secret1'')]"

definition bob_body :: jsval where
  "bob_body = JObj [(''name'', JStr ''Bob''), (''email'', JStr ''bob@x.com''),
                    (''password'', JStr ''hunter22'')]"

definition bills_body :: jsval where
  "bills_body = JObj [(''title'', JStr ''Pay bills''), (''createdDate'', JStr ''2024-01-01''),
                      (''completedDate'', JStr ''2024-01-01''), (''status'', JStr ''A Fazer'')]"

definition ana_row :: User where
  "ana_row = \<lparr>name = ''Ana'', email = ''ana@x.com'', password = ''#secret1'', user_id = 1\<rparr>"

definition bob_row :: User where
  "bob_row = \<lparr>name = ''Bob'', email = ''bob@x.com'', password = ''#hunter22'', user_id = 2\<rparr>"

definition bills_row :: Note where
  "bills_row = \<lparr>title = ''Pay bills'', createdDate = ''2024-01-01'',
                 completedDate = ''2024-01-01'', status = A_Fazer, userId = 1, note_id = 1\<rparr>"

text \<open>
  Ana registers on session 5, Bob on session 6, and Ana creates the note "Pay bills".
\<close>

definition demo_requests :: "request list" where
  "demo_requests = [Register ''s1'' 5 ana_body, Register ''s2'' 6 bob_body,
                    CreateNote 5 bills_body]"

definition demo_state :: state where
  "demo_state = \<lparr>users = [ana_row, bob_row], notes_tbl = [bills_row], users_id_seq = 3,
                  notes_id_seq = 2, sessions = [5 \<mapsto> 1, 6 \<mapsto> 2]\<rparr>"

text \<open>A registration with Ana's email and a password that is too short.\<close>

definition short_password_body :: jsval where
  "short_password_body = JObj [(''name'', JStr ''Ana''), (''email'', JStr ''ana@x.com''),
                    (''password'', JStr ''123'')]"

text \<open>
  Bodies for the create route: one that also carries a \<open>userId\<close> and an \<open>id\<close>, one
  whose dates are no dates, one with an empty title; and the state after Ana has created
  a second note.
\<close>

definition forged_body :: jsval where
  "forged_body = JObj [(''userId'', JNum 2), (''id'', JNum 7), (''title'', JStr ''Pay bills''),
                       (''createdDate'', JStr ''2024-01-01''),
                       (''completedDate'', JStr ''2024-01-01''), (''status'', JStr ''A Fazer'')]"

definition undated_body :: jsval where
  "undated_body = JObj [(''title'', JStr ''Pay bills''), (''createdDate'', JStr ''amanha''),
                        (''completedDate'', JStr ''amanha''), (''status'', JStr ''A Fazer'')]"

definition untitled_body :: jsval where
  "untitled_body = JObj [(''title'', JStr []), (''createdDate'', JStr ''2024-01-01''),
                        (''completedDate'', JStr ''2024-01-01''), (''status'', JStr ''A Fazer'')]"

definition demo_state2 :: state where
  "demo_state2 = demo_state\<lparr>notes_id_seq := 3,
     notes_tbl := [bills_row, \<lparr>title = ''Pay bills'', createdDate = ''2024-01-01'',
        completedDate = ''2024-01-01'', status = A_Fazer, userId = 1, note_id = 2\<rparr>]\<rparr>"



definition carol_body :: jsval where
  "carol_body = JObj [(''name'', JStr ''Carol''), (''email'', JStr ''carol@x.com''),
                      (''password'', JStr ''opensesame'')]"

definition carol_row :: User where
  "carol_row = \<lparr>name = ''Carol'', email = ''carol@x.com'', password = ''#opensesame'',
                 user_id = 3\<rparr>"

definition transfer_requests :: "request list" where
  "transfer_requests =
     [UpdateNote 6 ''1'' (JObj [(''userId'', JNum 2), (''title'', JStr ''Mine now'')]),
      UpdateNote 5 ''1'' (JObj [(''userId'', JNum 2), (''id'', JNum 9),
                               (''title'', JStr ''Renamed'')])]"

definition renamed_row :: Note where
  "renamed_row = bills_row\<lparr>title := ''Renamed''\<rparr>"

text \<open>The names of an object's members, and a note as the "mark completed" update leaves it.\<close>

definition member_names :: "jsval \<Rightarrow> string list" where
  "member_names j = (case j of JObj kvs \<Rightarrow> map fst kvs | _ \<Rightarrow> [])"

definition completed :: "string \<Rightarrow> Note \<Rightarrow> Note" where
  "completed d n = n\<lparr>completedDate := d, status := Concluida\<rparr>"

text \<open>
  A create body whose \<open>createdDate\<close> is written in the other style, and the state
  after Ana has sent it.
\<close>

definition jan_body :: jsval where
  "jan_body = JObj [(''title'', JStr ''Dentist''), (''createdDate'', JStr ''Jan 5 2024''),
                    (''completedDate'', JStr ''2024-01-05''), (''status'', JStr ''A Fazer'')]"

definition jan_row :: Note where
  "jan_row = \<lparr>title = ''Dentist'', createdDate = ''2024-01-05'',
               completedDate = ''2024-01-05'', status = A_Fazer, userId = 1, note_id = 2\<rparr>"

definition jan_state :: state where
  "jan_state = demo_state\<lparr>notes_id_seq := 3, notes_tbl := [bills_row, jan_row]\<rparr>"










section \<open>Running the model\<close>

lemmas demo_defs = demo_env_def demo_state_def ana_row_def bob_row_def bills_row_def
  max_integer_def

lemmas schema_defs = z_string_def z_string_min_def z_string_email_def z_enum_status_def
  z_optional_def issues_of_def status_text_def

lemma spec_calendar_date_20240101: "spec_calendar_date ''2024-01-01''"
  by code_simp

lemma demo_run: "run demo_env init_state demo_requests = demo_state"
  by (simp add: run_def step_def demo_requests_def demo_state_def init_state_def
      post_auth_register_def insertUserSchema_def ana_body_def bob_body_def bills_body_def
      z_string_min_def z_string_def z_string_email_def z_enum_status_def status_text_def
      getUserByEmail_def createUser_def post_notes_def requireAuth_def insertNoteSchema_def
      createNote_def demo_env_def ana_row_def bob_row_def bills_row_def Let_def
      spec_calendar_date_20240101 max_integer_def)

section \<open>The session check\<close>

lemma requireAuth_None:
  "sessions st s = None \<Longrightarrow> requireAuth st s next = (st, (401, message_json msg_nao_autorizado))"
  by (simp add: requireAuth_def)

lemma requireAuth_Some:
  "sessions st s = Some uid \<Longrightarrow> uid \<noteq> 0 \<Longrightarrow> requireAuth st s next = next uid"
  by (simp add: requireAuth_def)

text \<open>
  Claim C5. When nothing is saved under the request's session id, \<open>requireAuth\<close>
  answers 401 without running the handler behind it, whatever that handler is; so each of
  the five protected routes (whoami, list, create, update, delete) answers 401
  "N\<dots>o autorizado" and returns the state as it was: users, notes, counters and sessions.
\<close>

theorem C5_unauthenticated_rejected:
  assumes "sessions st s = None"
  shows "(\<forall>next. requireAuth st s next = (st, (401, message_json msg_nao_autorizado)))
    \<and> get_auth_me st s = (st, (401, message_json msg_nao_autorizado))
    \<and> get_notes st s = (st, (401, message_json msg_nao_autorizado))
    \<and> post_notes env st s body = (st, (401, message_json msg_nao_autorizado))
    \<and> put_notes_id env st s idParam body = (st, (401, message_json msg_nao_autorizado))
    \<and> delete_notes_id env st s idParam = (st, (401, message_json msg_nao_autorizado))"
  using assms
  by (simp add: requireAuth_None get_auth_me_def get_notes_def post_notes_def put_notes_id_def
      delete_notes_id_def)

theorem C5_unauthenticated_rejected_witness:
  "sessions demo_state 7 = None
   \<and> get_notes demo_state 7 = (demo_state, (401, message_json msg_nao_autorizado))
   \<and> post_notes demo_env demo_state 7 bills_body
       = (demo_state, (401, message_json msg_nao_autorizado))
   \<and> delete_notes_id demo_env demo_state 7 ''1''
       = (demo_state, (401, message_json msg_nao_autorizado))"
proof -
  have h: "sessions demo_state 7 = None"
    by (simp add: demo_state_def)
  from C5_unauthenticated_rejected [OF h, of demo_env bills_body "''1''"] h
  show ?thesis by simp
qed

section \<open>The storage operations and the invariants\<close>

lemma set_columns_ids [simp]:
  "note_id (set_columns cols n) = note_id n" "userId (set_columns cols n) = userId n"
  by (simp_all add: set_columns_def)

lemma note_id_comp_update:
  "note_id \<circ> (\<lambda>n. if P n then set_columns cols n else n) = note_id"
  by (auto simp: fun_eq_iff)

lemma notes_inv_createNote:
  "createNote env st x = (st', r) \<Longrightarrow> notes_inv st \<Longrightarrow> notes_inv st'"
  by (fastforce simp: notes_inv_def createNote_def Let_def list_all_iff split: option.splits bool.splits if_splits)

lemma notes_inv_updateNote:
  "updateNote env st i uid upd = (st', r) \<Longrightarrow> notes_inv st \<Longrightarrow> notes_inv st'"
  by (auto simp: notes_inv_def updateNote_def Let_def list_all_iff note_id_comp_update split: option.splits)

lemma notes_inv_deleteNote:
  "deleteNote st i uid = (st', r) \<Longrightarrow> notes_inv st \<Longrightarrow> notes_inv st'"
  by (auto simp: notes_inv_def deleteNote_def list_all_iff distinct_map_filter)

lemma notes_inv_register: "notes_inv st \<Longrightarrow> notes_inv (fst (post_auth_register env salt st s body))"
  by (auto simp: post_auth_register_def notes_inv_def createUser_def Let_def split: sum.splits option.splits prod.splits)

lemma notes_inv_step: 
  assumes a: "notes_inv st" shows "notes_inv (step env st r)"
proof (cases r)
  case (Register salt s body)
  then show ?thesis using a
    by (simp add: step_def notes_inv_register)
next
  case (Login s body)
  then show ?thesis using a
    by (auto simp: step_def post_auth_login_def notes_inv_def split: sum.splits option.splits)
next
  case (Logout s)
  then show ?thesis using a
    by (auto simp: step_def post_auth_logout_def notes_inv_def)
next
  case (Me s)
  then show ?thesis using a
    by (auto simp: step_def get_auth_me_def requireAuth_def split: option.splits)
next
  case (ListNotes s)
  then show ?thesis using a
    by (auto simp: step_def get_notes_def requireAuth_def split: option.splits)
next
  case (CreateNote s body)
  then show ?thesis using a
    by (auto simp: step_def post_notes_def requireAuth_def split: option.splits sum.splits prod.splits
         dest: notes_inv_createNote)
next
  case (UpdateNote s p body)
  then show ?thesis using a
    by (auto simp: step_def put_notes_id_def requireAuth_def Let_def split: option.splits sum.splits prod.splits
         dest: notes_inv_updateNote)
next
  case (DeleteNote s p)
  then show ?thesis using a
    by (auto simp: step_def delete_notes_id_def requireAuth_def split: option.splits sum.splits prod.splits bool.splits
        dest: notes_inv_deleteNote)
qed

lemma insertUserSchema_Inr:
  "insertUserSchema env body = Inr v \<longleftrightarrow>
     (given body ''name'' = Some (JStr (name v)) \<and> name v \<noteq> []
      \<and> given body ''email'' = Some (JStr (email v)) \<and> is_email env (email v)
      \<and> given body ''password'' = Some (JStr (password v)) \<and> 6 \<le> length (password v))"
  by (cases v) (auto simp: insertUserSchema_def given_def Let_def z_string_min_def z_string_email_def z_string_def
      split: jsval.splits option.splits sum.splits if_splits)

lemma step_users_frame:
  "(\<forall>salt s body. r \<noteq> Register salt s body) \<Longrightarrow>
     users (step env st r) = users st \<and> users_id_seq (step env st r) = users_id_seq st"
  by (cases r)
     (auto simp: step_def post_auth_login_def post_auth_logout_def get_auth_me_def get_notes_def
        post_notes_def put_notes_id_def delete_notes_id_def requireAuth_def createNote_def
        updateNote_def deleteNote_def Let_def
        split: option.splits sum.splits prod.splits bool.splits if_splits)

lemma createUser_cases:
  "createUser env st x = (st', r) \<Longrightarrow>
     notes_tbl st' = notes_tbl st \<and> notes_id_seq st' = notes_id_seq st \<and> sessions st' = sessions st
     \<and> ((r = Inl Error \<and> users st' = users st
          \<and> (users_id_seq st' = users_id_seq st \<or> users_id_seq st' = users_id_seq st + 1))
        \<or> (\<exists>u. r = Inr u \<and> users st' = users st @ [u] \<and> users_id_seq st' = users_id_seq st + 1
               \<and> u = \<lparr>name = name x, email = email x, password = password x,
                        user_id = users_id_seq st\<rparr>
               \<and> user_id u \<notin> set (map user_id (users st))
               \<and> email x \<notin> set (map email (users st))))"
  by (auto simp: createUser_def Let_def split: if_splits)

lemma users_inv_createUser:
  "createUser env st x = (st', r) \<Longrightarrow> users_inv st \<Longrightarrow> users_inv st'"
  by (drule createUser_cases) (fastforce simp: users_inv_def list_all_iff)

lemma register_cases:
  assumes "post_auth_register env salt st s body = (st', resp)"
  obtains (rejected) "st' = st" "fst resp = 400"
  | (failed) v st1 e where "insertUserSchema env body = Inr v" "getUserByEmail st (email v) = None"
      "createUser env st \<lparr>name = name v, email = email v,
          password = bcrypt_hash env (password v) salt\<rparr> = (st1, Inl e)"
      "st' = st1" "resp = (500, message_json msg_erro_interno)"
  | (created) v st1 u where "insertUserSchema env body = Inr v" "getUserByEmail st (email v) = None"
      "createUser env st \<lparr>name = name v, email = email v,
          password = bcrypt_hash env (password v) salt\<rparr> = (st1, Inr u)"
      "st' = st1\<lparr>sessions := (sessions st1)(s \<mapsto> user_id u)\<rparr>" "resp = (200, user_json u)"
  using assms
  by (auto simp: post_auth_register_def zod_response_def Let_def
      split: sum.splits option.splits prod.splits exn.splits)

lemma users_inv_cong: "users st' = users st \<Longrightarrow> users_id_seq st' = users_id_seq st \<Longrightarrow> users_inv st' = users_inv st"
  by (simp add: users_inv_def)

lemma users_inv_step:
  assumes a: "users_inv st" shows "users_inv (step env st r)"
proof (cases "\<exists>salt s body. r = Register salt s body")
  case False
  then show ?thesis using a step_users_frame[of r env st] users_inv_cong by blast
next
  case True
  then obtain salt s body where r: "r = Register salt s body" by blast
  obtain st' resp where h: "post_auth_register env salt st s body = (st', resp)" by (meson surj_pair)
  from h have "users_inv st'"
  proof (cases rule: register_cases)
    case rejected
    then show ?thesis using a by simp
  next
    case (failed v st1 e)
    then show ?thesis using a users_inv_createUser[OF failed(3)] by (simp add: users_inv_def)
  next
    case (created v st1 u)
    then show ?thesis using a users_inv_createUser[OF created(3)]
      by (simp add: users_inv_def)
  qed
  then show ?thesis using r h by (simp add: step_def)
qed

lemma find_in_set: "find P xs = Some x \<Longrightarrow> x \<in> set xs \<and> P x"
  by (induction xs) (auto split: if_splits)

lemma find_None_set: "find P xs = None \<longleftrightarrow> (\<forall>x\<in>set xs. \<not> P x)"
  by (induction xs) auto

lemma getUserByEmail_Some: "getUserByEmail st e = Some u \<Longrightarrow> u \<in> set (users st) \<and> email u = e"
  by (auto simp: getUserByEmail_def dest: find_in_set)

lemma login_cases:
  assumes h: "post_auth_login env st s body = (st', resp)"
  obtains (rejected) "st' = st" "fst resp \<noteq> 200"
  | (logged_in) v u where "loginSchema env body = Inr v" "getUserByEmail st (l_email v) = Some u"
      "bcrypt_compare env (l_password v) (password u)"
      "st' = st\<lparr>sessions := (sessions st)(s \<mapsto> user_id u)\<rparr>" "resp = (200, user_json u)"
proof (cases "loginSchema env body")
  case (Inl issues)
  with h have "st' = st" "fst resp \<noteq> 200"
    by (auto simp: post_auth_login_def zod_response_def)
  then show ?thesis by (rule rejected)
next
  case (Inr v)
  show ?thesis
  proof (cases "getUserByEmail st (l_email v)")
    case None
    with h Inr have "st' = st" "fst resp \<noteq> 200"
      by (auto simp: post_auth_login_def)
    then show ?thesis by (rule rejected)
  next
    case (Some u)
    show ?thesis
    proof (cases "bcrypt_compare env (l_password v) (password u)")
      case True
      with h Inr Some have "st' = st\<lparr>sessions := (sessions st)(s \<mapsto> user_id u)\<rparr>"
        "resp = (200, user_json u)"
        by (auto simp: post_auth_login_def)
      with Inr Some True show ?thesis by (rule logged_in)
    next
      case False
      with h Inr Some have "st' = st" "fst resp \<noteq> 200"
        by (auto simp: post_auth_login_def)
      then show ?thesis by (rule rejected)
    qed
  qed
qed

lemma step_sessions_frame:
  assumes "\<forall>salt s body. r \<noteq> Register salt s body" "\<forall>s body. r \<noteq> Login s body"
    "\<forall>s. r \<noteq> Logout s"
  shows "sessions (step env st r) = sessions st"
proof (cases r)
  case (Me s)
  then show ?thesis
    by (auto simp: step_def get_auth_me_def requireAuth_def split: option.splits)
next
  case (ListNotes s)
  then show ?thesis
    by (auto simp: step_def get_notes_def requireAuth_def split: option.splits)
next
  case (CreateNote s body)
  then show ?thesis
    by (auto simp: step_def post_notes_def requireAuth_def createNote_def Let_def
        split: option.splits sum.splits prod.splits bool.splits if_splits)
next
  case (UpdateNote s p body)
  then show ?thesis
    by (auto simp: step_def put_notes_id_def requireAuth_def updateNote_def Let_def
        split: option.splits sum.splits prod.splits if_splits)
next
  case (DeleteNote s p)
  then show ?thesis
    by (auto simp: step_def delete_notes_id_def requireAuth_def deleteNote_def
        split: option.splits prod.splits bool.splits)
qed (use assms in simp_all)

lemma sessions_inv_step:
  assumes a: "sessions_inv st" shows "sessions_inv (step env st r)"
proof (cases r)
  case (Register salt s body)
  obtain st' resp where h: "post_auth_register env salt st s body = (st', resp)" by (meson surj_pair)
  from h have "sessions_inv st'"
  proof (cases rule: register_cases)
    case rejected
    then show ?thesis using a by simp
  next
    case (failed v st1 e)
    then show ?thesis using a createUser_cases[OF failed(3)] by (auto simp: sessions_inv_def)
  next
    case (created v st1 u)
    then show ?thesis using a createUser_cases[OF created(3)] by (auto simp: sessions_inv_def)
  qed
  then show ?thesis using Register h by (simp add: step_def)
next
  case (Login s body)
  obtain st' resp where h: "post_auth_login env st s body = (st', resp)" by (meson surj_pair)
  from h have "sessions_inv st'"
  proof (cases rule: login_cases)
    case rejected
    then show ?thesis using a by simp
  next
    case (logged_in v u)
    then show ?thesis using a getUserByEmail_Some[OF logged_in(2)] by (auto simp: sessions_inv_def)
  qed
  then show ?thesis using Login h by (simp add: step_def)
next
  case (Logout s)
  then show ?thesis using a by (auto simp: step_def post_auth_logout_def sessions_inv_def)
qed (use a step_sessions_frame[of r env st] step_users_frame[of r env st] in \<open>auto simp: sessions_inv_def\<close>)

lemma credentials_inv_step:
  assumes a: "credentials_inv env st" shows "credentials_inv env (step env st r)"
proof (cases "\<exists>salt s body. r = Register salt s body")
  case False
  then show ?thesis using a step_users_frame[of r env st] by (simp add: credentials_inv_def)
next
  case True
  then obtain salt s body where r: "r = Register salt s body" by blast
  obtain st' resp where h: "post_auth_register env salt st s body = (st', resp)" by (meson surj_pair)
  from h have "credentials_inv env st'"
  proof (cases rule: register_cases)
    case rejected
    then show ?thesis using a by simp
  next
    case (failed v st1 e)
    then show ?thesis using a createUser_cases[OF failed(3)] by (auto simp: credentials_inv_def)
  next
    case (created v st1 u)
    from created(1) have "is_email env (email v)" "6 \<le> length (password v)"
      by (simp_all add: insertUserSchema_Inr)
    then have "registered env u" using createUser_cases[OF created(3)]
      by (auto simp: registered_def)
    then show ?thesis using a created createUser_cases[OF created(3)] by (auto simp: credentials_inv_def)
  qed
  then show ?thesis using r h by (simp add: step_def)
qed

lemma reachable_inv:
  "reachable env st \<Longrightarrow> notes_inv st \<and> users_inv st \<and> sessions_inv st \<and> credentials_inv env st"
proof (induction rule: reachable.induct)
  case reachable_init
  show ?case by (simp add: init_state_def notes_inv_def users_inv_def sessions_inv_def credentials_inv_def)
next
  case (reachable_step st r)
  then show ?case
    by (simp add: notes_inv_step users_inv_step sessions_inv_step credentials_inv_step)
qed

lemma reachable_run: "reachable env st \<Longrightarrow> reachable env (run env st rs)"
  unfolding run_def by (induction rs arbitrary: st) (auto intro: reachable_step)

lemma reachable_demo_state: "reachable demo_env demo_state"
  using reachable_run[OF reachable_init, of demo_env demo_requests] by (simp add: demo_run)

section \<open>Notes of other users\<close>

lemma no_match:
  assumes "distinct (map note_id (notes_tbl st))" "n \<in> set (notes_tbl st)" "uid \<noteq> userId n"
    "m \<in> set (notes_tbl st)"
  shows "\<not> (note_id m = note_id n \<and> userId m = uid)"
proof
  assume h: "note_id m = note_id n \<and> userId m = uid"
  from assms(1) have "inj_on note_id (set (notes_tbl st))" by (simp add: distinct_map)
  with assms(2,4) h have "m = n" by (auto dest: inj_onD)
  with h assms(3) show False by simp
qed

lemma filter_all: "(\<forall>x\<in>set xs. P x) \<Longrightarrow> filter P xs = xs"
  by (induction xs) auto

lemma filter_none: "(\<forall>x\<in>set xs. \<not> P x) \<Longrightarrow> filter P xs = []"
  by (induction xs) auto

lemma map_if_none: "(\<forall>x\<in>set xs. \<not> P x) \<Longrightarrow> map (\<lambda>x. if P x then f x else x) xs = xs"
  by (induction xs) auto

lemma deleteNote_no_match:
  "\<forall>m\<in>set (notes_tbl st). \<not> (note_id m = i \<and> userId m = uid) \<Longrightarrow> deleteNote st i uid = (st, False)"
  by (simp add: deleteNote_def filter_all filter_none)

lemma updateNote_no_match:
  "\<forall>m\<in>set (notes_tbl st). \<not> (note_id m = i \<and> userId m = uid) \<Longrightarrow>
   updateNote env st i uid upd = (st, if bind_update env upd = None then Inl Error else Inr None)"
  by (auto simp: updateNote_def Let_def map_if_none find_None_set split: option.splits)

text \<open>
  Claim C1, as amended. Let \<open>n\<close> be a note of a table whose ids are a primary key, and
  let the request come from an authenticated user other than its owner, on \<open>n\<close>'s id.
  Then \<open>deleteNote\<close> returns false and the DELETE handler answers 404;
  \<open>updateNote\<close> never returns a note: it returns none whenever the database carries
  the update out, and raises when the update sets no column or a value the database
  rejects; the PUT handler answers 404 for a body that passes validation and that the
  database carries out, 400 for a body that fails validation and 500 when the database
  raises. In every case the state is returned as it was.
\<close>

theorem C1_non_owner_update_delete:
  assumes pk: "distinct (map note_id (notes_tbl st))"
    and n: "n \<in> set (notes_tbl st)"
    and auth: "sessions st s = Some uid" "uid \<noteq> 0"
    and other: "uid \<noteq> userId n"
    and param: "parseInt env idParam = Some (note_id n)"
  shows "deleteNote st (note_id n) uid = (st, False)
    \<and> delete_notes_id env st s idParam = (st, (404, message_json msg_anotacao_nao_encontrada))
    \<and> updateNote env st (note_id n) uid upd
        = (st, if bind_update env upd = None then Inl Error else Inr None)
    \<and> put_notes_id env st s idParam body
        = (st, case insertNoteSchema_partial body of
                 Inl issues \<Rightarrow> zod_response env issues
               | Inr noteUpdate \<Rightarrow>
                   if bind_update env noteUpdate = None
                   then (500, message_json msg_erro_atualizar)
                   else (404, message_json msg_anotacao_nao_encontrada))"
proof -
  have nm: "\<forall>m\<in>set (notes_tbl st). \<not> (note_id m = note_id n \<and> userId m = uid)"
    using no_match[OF pk n other] by blast
  have d: "deleteNote st (note_id n) uid = (st, False)"
    by (rule deleteNote_no_match[OF nm])
  have u: "\<And>upd. updateNote env st (note_id n) uid upd
        = (st, if bind_update env upd = None then Inl Error else Inr None)"
    by (rule updateNote_no_match[OF nm])
  have dh: "delete_notes_id env st s idParam = (st, (404, message_json msg_anotacao_nao_encontrada))"
    using auth param d by (simp add: delete_notes_id_def requireAuth_Some)
  have ph: "put_notes_id env st s idParam body
        = (st, case insertNoteSchema_partial body of
                 Inl issues \<Rightarrow> zod_response env issues
               | Inr noteUpdate \<Rightarrow>
                   if bind_update env noteUpdate = None
                   then (500, message_json msg_erro_atualizar)
                   else (404, message_json msg_anotacao_nao_encontrada))"
    using auth param u by (simp add: put_notes_id_def requireAuth_Some split: sum.splits)
  from d u dh ph show ?thesis by simp
qed

text \<open>
  The claim as stated (the handler answers 404 to every such update) fails: Bob, on Ana's
  note, gets 400 for an empty title and 500 for a completion date the database rejects,
  on which \<open>updateNote\<close> raises instead of returning none.
\<close>

theorem C1_counterexample:
  "bills_row \<in> set (notes_tbl demo_state) \<and> userId bills_row = 1
   \<and> sessions demo_state 6 = Some 2 \<and> parseInt demo_env ''1'' = Some (note_id bills_row)
   \<and> put_notes_id demo_env demo_state 6 ''1'' (JObj [(''title'', JStr [])])
        = (demo_state, (400, message_json ''Validation error''))
   \<and> put_notes_id demo_env demo_state 6 ''1'' (JObj [(''completedDate'', JStr ''amanha'')])
        = (demo_state, (500, message_json msg_erro_atualizar))
   \<and> updateNote demo_env demo_state 1 2
        \<lparr>p_title = None, p_createdDate = None, p_completedDate = Some ''amanha'', p_status = None\<rparr>
        = (demo_state, Inl Error)"
  by (simp add: demo_defs put_notes_id_def requireAuth_def insertNoteSchema_partial_def schema_defs
      zod_response_def updateNote_def bind_update_def bind_date_def spec_calendar_date_def)

theorem C1_witness:
  "delete_notes_id demo_env demo_state 6 ''1''
     = (demo_state, (404, message_json msg_anotacao_nao_encontrada))
   \<and> put_notes_id demo_env demo_state 6 ''1'' (JObj [(''title'', JStr ''Mine now'')])
     = (demo_state, (404, message_json msg_anotacao_nao_encontrada))"
proof -
  have 1: "distinct (map note_id (notes_tbl demo_state))" by (simp add: demo_defs)
  have 2: "bills_row \<in> set (notes_tbl demo_state)" by (simp add: demo_defs)
  have 3: "sessions demo_state 6 = Some 2" by (simp add: demo_defs)
  have 4: "(2::int) \<noteq> 0" by simp
  have 5: "2 \<noteq> userId bills_row" by (simp add: demo_defs)
  have 6: "parseInt demo_env ''1'' = Some (note_id bills_row)" by (simp add: demo_defs)
  have 7: "insertNoteSchema_partial (JObj [(''title'', JStr ''Mine now'')])
     = Inr \<lparr>p_title = Some ''Mine now'', p_createdDate = None, p_completedDate = None, p_status = None\<rparr>"
    by (simp add: insertNoteSchema_partial_def schema_defs)
  have 8: "bind_update demo_env \<lparr>p_title = Some ''Mine now'', p_createdDate = None, p_completedDate = None, p_status = None\<rparr> \<noteq> None"
    by (simp add: bind_update_def bind_date_def demo_env_def)
  from C1_non_owner_update_delete [OF 1 2 3 4 5 6, of "\<lparr>p_title = None, p_createdDate = None, p_completedDate = None, p_status = None\<rparr>" "JObj [(''title'', JStr ''Mine now'')]"] 7 8
  show ?thesis by simp
qed

section \<open>Validation\<close>

lemma z_string_min_issue:
  "z_string_min n msg k v = Inl i \<Longrightarrow> issue_path i = [k]"
  by (auto simp: z_string_min_def z_string_def split: option.splits jsval.splits if_splits)

lemma z_string_email_issue:
  "z_string_email env msg k v = Inl i \<Longrightarrow> issue_path i = [k]"
  by (auto simp: z_string_email_def z_string_def split: option.splits jsval.splits if_splits)

lemma z_string_min_Inr:
  "z_string_min n msg k v = Inr x \<longleftrightarrow> v = Some (JStr x) \<and> n \<le> length x"
  by (auto simp: z_string_min_def z_string_def split: option.splits jsval.splits if_splits)

lemma z_string_email_Inr:
  "z_string_email env msg k v = Inr x \<longleftrightarrow> v = Some (JStr x) \<and> is_email env x"
  by (auto simp: z_string_email_def z_string_def split: option.splits jsval.splits if_splits)

lemma z_string_Inr:
  "z_string k v = Inr x \<longleftrightarrow> v = Some (JStr x)"
  by (auto simp: z_string_def split: option.splits jsval.splits if_splits)

lemma status_text_inject: "status_text a = status_text b \<longleftrightarrow> a = b"
  by (cases a; cases b) (simp_all add: status_text_def)

lemma z_enum_status_Inr:
  "z_enum_status k v = Inr x \<longleftrightarrow> v = Some (JStr (status_text x))"
  by (cases x) (auto simp: z_enum_status_def status_text_def split: option.splits jsval.splits if_splits)

lemma issues_of_Inl [simp]: "issues_of (Inl i) = [i]"
  by (simp add: issues_of_def)

lemma issues_of_Inr [simp]: "issues_of (Inr x) = []"
  by (simp add: issues_of_def)

lemma insertUserSchema_obj:
  "insertUserSchema env (JObj kvs) =
     (case (z_string_min 1 msg_nome_obrigatorio ''name'' (map_of kvs ''name''),
            z_string_email env msg_email_invalido ''email'' (map_of kvs ''email''),
            z_string_min 6 msg_senha_curta ''password'' (map_of kvs ''password'')) of
        (Inr n, Inr e, Inr p) \<Rightarrow> Inr \<lparr>name = n, email = e, password = p\<rparr>
      | (a, b, c) \<Rightarrow> Inl (issues_of a @ issues_of b @ issues_of c))"
  by (simp add: insertUserSchema_def Let_def split: sum.splits)

lemma insertUserSchema_Inl:
  assumes "insertUserSchema env (JObj kvs) = Inl issues"
  shows "issues \<noteq> []"
    and "(\<exists>i\<in>set issues. issue_path i = [''name''])
           \<longleftrightarrow> \<not> (\<exists>n. map_of kvs ''name'' = Some (JStr n) \<and> n \<noteq> [])"
    and "(\<exists>i\<in>set issues. issue_path i = [''email''])
           \<longleftrightarrow> \<not> (\<exists>e. map_of kvs ''email'' = Some (JStr e) \<and> is_email env e)"
    and "(\<exists>i\<in>set issues. issue_path i = [''password''])
           \<longleftrightarrow> \<not> (\<exists>p. map_of kvs ''password'' = Some (JStr p) \<and> 6 \<le> length p)"
proof -
  define a where "a = z_string_min 1 msg_nome_obrigatorio ''name'' (map_of kvs ''name'')"
  define b where "b = z_string_email env msg_email_invalido ''email'' (map_of kvs ''email'')"
  define c where "c = z_string_min 6 msg_senha_curta ''password'' (map_of kvs ''password'')"
  have pa: "\<And>i. a = Inl i \<Longrightarrow> issue_path i = [''name'']"
    unfolding a_def by (rule z_string_min_issue)
  have pb: "\<And>i. b = Inl i \<Longrightarrow> issue_path i = [''email'']"
    unfolding b_def by (rule z_string_email_issue)
  have pc: "\<And>i. c = Inl i \<Longrightarrow> issue_path i = [''password'']"
    unfolding c_def by (rule z_string_min_issue)
  have ra: "(\<exists>x. a = Inr x) \<longleftrightarrow> (\<exists>n. map_of kvs ''name'' = Some (JStr n) \<and> n \<noteq> [])"
    unfolding a_def by (auto simp: z_string_min_Inr Suc_le_eq)
  have rb: "(\<exists>x. b = Inr x) \<longleftrightarrow> (\<exists>e. map_of kvs ''email'' = Some (JStr e) \<and> is_email env e)"
    unfolding b_def by (auto simp: z_string_email_Inr)
  have rc: "(\<exists>x. c = Inr x) \<longleftrightarrow> (\<exists>p. map_of kvs ''password'' = Some (JStr p) \<and> 6 \<le> length p)"
    unfolding c_def by (auto simp: z_string_min_Inr)
  from assms have iss: "issues = issues_of a @ issues_of b @ issues_of c"
    and some: "\<not> ((\<exists>x. a = Inr x) \<and> (\<exists>x. b = Inr x) \<and> (\<exists>x. c = Inr x))"
    unfolding insertUserSchema_obj a_def[symmetric] b_def[symmetric] c_def[symmetric]
    by (auto split: sum.splits)
  from some show "issues \<noteq> []" unfolding iss by (cases a; cases b; cases c) auto
  show "(\<exists>i\<in>set issues. issue_path i = [''name''])
           \<longleftrightarrow> \<not> (\<exists>n. map_of kvs ''name'' = Some (JStr n) \<and> n \<noteq> [])"
    unfolding iss ra[symmetric] using pa pb pc by (cases a; cases b; cases c) auto
  show "(\<exists>i\<in>set issues. issue_path i = [''email''])
           \<longleftrightarrow> \<not> (\<exists>e. map_of kvs ''email'' = Some (JStr e) \<and> is_email env e)"
    unfolding iss rb[symmetric] using pa pb pc by (cases a; cases b; cases c) auto
  show "(\<exists>i\<in>set issues. issue_path i = [''password''])
           \<longleftrightarrow> \<not> (\<exists>p. map_of kvs ''password'' = Some (JStr p) \<and> 6 \<le> length p)"
    unfolding iss rc[symmetric] using pa pb pc by (cases a; cases b; cases c) auto
qed

lemma given_obj [simp]: "given (JObj kvs) k = map_of kvs k"
  by (simp add: given_def)

lemma getUserByEmail_None: "getUserByEmail st e = None \<longleftrightarrow> e \<notin> set (map email (users st))"
  by (auto simp: getUserByEmail_def find_None_set)

lemma register_invalid:
  "insertUserSchema env body = Inl issues \<Longrightarrow>
   post_auth_register env salt st s body = (st, (400, message_json (fromZodError env issues)))"
  by (simp add: post_auth_register_def zod_response_def)

lemma register_duplicate:
  "insertUserSchema env body = Inr v \<Longrightarrow> email v \<in> set (map email (users st)) \<Longrightarrow>
   post_auth_register env salt st s body = (st, (400, message_json msg_email_em_uso))"
  using getUserByEmail_None[of st "email v"]
  by (auto simp: post_auth_register_def split: option.splits)

lemma insertUserSchema_accepts:
  "(\<exists>v. insertUserSchema env body = Inr v) \<longleftrightarrow>
     (\<exists>n e p. given body ''name'' = Some (JStr n) \<and> n \<noteq> []
        \<and> given body ''email'' = Some (JStr e) \<and> is_email env e
        \<and> given body ''password'' = Some (JStr p) \<and> 6 \<le> length p)"
proof
  assume "\<exists>v. insertUserSchema env body = Inr v"
  then obtain v where "insertUserSchema env body = Inr v" ..
  then show "\<exists>n e p. given body ''name'' = Some (JStr n) \<and> n \<noteq> []
        \<and> given body ''email'' = Some (JStr e) \<and> is_email env e
        \<and> given body ''password'' = Some (JStr p) \<and> 6 \<le> length p"
    unfolding insertUserSchema_Inr by blast
next
  assume "\<exists>n e p. given body ''name'' = Some (JStr n) \<and> n \<noteq> []
        \<and> given body ''email'' = Some (JStr e) \<and> is_email env e
        \<and> given body ''password'' = Some (JStr p) \<and> 6 \<le> length p"
  then obtain n e p where "given body ''name'' = Some (JStr n) \<and> n \<noteq> []
        \<and> given body ''email'' = Some (JStr e) \<and> is_email env e
        \<and> given body ''password'' = Some (JStr p) \<and> 6 \<le> length p" by blast
  then have "insertUserSchema env body = Inr \<lparr>name = n, email = e, password = p\<rparr>"
    unfolding insertUserSchema_Inr by simp
  then show "\<exists>v. insertUserSchema env body = Inr v" ..
qed

section \<open>Registration failures\<close>

text \<open>
  Claim C4, as amended. Validation comes first: when the body fails
  \<open>insertUserSchema\<close> the handler answers 400 with the message built from the issues,
  and the issues name exactly the offending members: \<open>name\<close> when it is not a
  non-empty string, \<open>email\<close> when it is not a string that passes the email check,
  \<open>password\<close> when it is not a string of six or more code units. When the body passes
  validation and a user with exactly that email exists, the handler answers 400 "Email
  j\<dots> est\<dots> em uso". In both cases the state is returned as it was: no user row is
  added and nothing is saved in the session.
\<close>

theorem C4_register_failures:
  "(insertUserSchema env body = Inl issues \<longrightarrow>
      post_auth_register env salt st s body
        = (st, (400, message_json (fromZodError env issues))))
   \<and> (insertUserSchema env body = Inr v \<and> email v \<in> set (map email (users st)) \<longrightarrow>
      post_auth_register env salt st s body = (st, (400, message_json msg_email_em_uso)))
   \<and> ((\<exists>v'. insertUserSchema env body = Inr v') \<longleftrightarrow>
        (\<exists>n e p. given body ''name'' = Some (JStr n) \<and> n \<noteq> []
           \<and> given body ''email'' = Some (JStr e) \<and> is_email env e
           \<and> given body ''password'' = Some (JStr p) \<and> 6 \<le> length p))
   \<and> (insertUserSchema env (JObj kvs) = Inl issues \<longrightarrow>
        issues \<noteq> []
        \<and> ((\<exists>i\<in>set issues. issue_path i = [''name''])
              \<longleftrightarrow> \<not> (\<exists>n. map_of kvs ''name'' = Some (JStr n) \<and> n \<noteq> []))
        \<and> ((\<exists>i\<in>set issues. issue_path i = [''email''])
              \<longleftrightarrow> \<not> (\<exists>e. map_of kvs ''email'' = Some (JStr e) \<and> is_email env e))
        \<and> ((\<exists>i\<in>set issues. issue_path i = [''password''])
              \<longleftrightarrow> \<not> (\<exists>p. map_of kvs ''password'' = Some (JStr p) \<and> 6 \<le> length p)))"
  using register_invalid[of env body issues salt st s] register_duplicate[of env body v st salt s]
    insertUserSchema_accepts[of env body] insertUserSchema_Inl[of env kvs issues]
  by blast

lemma short_password_invalid:
  "insertUserSchema demo_env short_password_body
     = Inl [Issue [''password''] too_small (Some msg_senha_curta)]"
  by (simp add: insertUserSchema_def short_password_body_def schema_defs demo_env_def)

lemma ana_valid:
  "insertUserSchema demo_env ana_body = Inr \<lparr>name = ''Ana'', email = ''ana@x.com'', password = ''secret1''\<rparr>"
  by (simp add: insertUserSchema_def ana_body_def schema_defs demo_env_def)

text \<open>
  The claim as stated (DuplicateEmail whenever the email is registered) fails: Ana's email
  is registered, and a registration with that email and a password of three code units is
  answered with the validation error for the password, not with "Email j\<dots> est\<dots> em uso".
\<close>

theorem C4_counterexample:
  "''ana@x.com'' \<in> set (map email (users demo_state))
   \<and> given short_password_body ''email'' = Some (JStr ''ana@x.com'')
   \<and> post_auth_register demo_env ''s3'' demo_state 7 short_password_body
       = (demo_state, (400, message_json
            (fromZodError demo_env [Issue [''password''] too_small (Some msg_senha_curta)])))
   \<and> fromZodError demo_env [Issue [''password''] too_small (Some msg_senha_curta)]
       \<noteq> msg_email_em_uso"
  by (simp add: short_password_invalid post_auth_register_def zod_response_def)
     (simp add: demo_defs short_password_body_def msg_email_em_uso_def)

theorem C4_witness:
  "post_auth_register demo_env ''s3'' demo_state 7 short_password_body
       = (demo_state, (400, message_json
            (fromZodError demo_env [Issue [''password''] too_small (Some msg_senha_curta)])))
   \<and> post_auth_register demo_env ''s3'' demo_state 7 ana_body
       = (demo_state, (400, message_json msg_email_em_uso))"
proof -
  have e: "email \<lparr>name = ''Ana'', email = ''ana@x.com'', password = ''secret1''\<rparr>
             \<in> set (map email (users demo_state))"
    by (simp add: demo_defs)
  from C4_register_failures [of demo_env short_password_body
        "[Issue [''password''] too_small (Some msg_senha_curta)]" "''s3''" demo_state 7]
    C4_register_failures [of demo_env ana_body _ "''s3''" demo_state 7
        "\<lparr>name = ''Ana'', email = ''ana@x.com'', password = ''secret1''\<rparr>"]
    short_password_invalid ana_valid e
  show ?thesis by blast
qed

section \<open>Creating notes\<close>

lemma z_enum_status_text [simp]: "z_enum_status k (Some (JStr (status_text x))) = Inr x"
  by (simp add: z_enum_status_Inr)

lemma sum4_case_Inr:
  "(case (a, b, c, d) of
      (Inr t', Inr c', Inr d', Inr s') \<Rightarrow> Inr (F t' c' d' s')
    | _ \<Rightarrow> Inl G) = Inr v
   \<longleftrightarrow> (\<exists>t' c' d' s'. a = Inr t' \<and> b = Inr c' \<and> c = Inr d' \<and> d = Inr s' \<and> v = F t' c' d' s')"
  by (cases a; cases b; cases c; cases d) auto

lemma insertNoteSchema_Inr:
  "insertNoteSchema body = Inr v \<longleftrightarrow>
     (given body ''title'' = Some (JStr (title v)) \<and> title v \<noteq> []
      \<and> given body ''createdDate'' = Some (JStr (createdDate v))
      \<and> given body ''completedDate'' = Some (JStr (completedDate v)) \<and> completedDate v \<noteq> []
      \<and> given body ''status'' = Some (JStr (status_text (status v))))"
proof (cases body)
  case (JObj kvs)
  show ?thesis
    unfolding JObj insertNoteSchema_def Let_def jsval.case sum4_case_Inr given_obj
      z_string_min_Inr z_string_Inr z_enum_status_Inr
    by (cases v) (auto simp: Suc_le_eq)
qed (simp_all add: insertNoteSchema_def given_def)

lemma insertNoteSchema_keys:
  assumes "\<forall>k. k \<noteq> ''userId'' \<longrightarrow> map_of kvs k = map_of kvs' k"
  shows "insertNoteSchema (JObj kvs) = insertNoteSchema (JObj kvs')"
proof -
  from assms have "map_of kvs ''title'' = map_of kvs' ''title''"
    "map_of kvs ''createdDate'' = map_of kvs' ''createdDate''"
    "map_of kvs ''completedDate'' = map_of kvs' ''completedDate''"
    "map_of kvs ''status'' = map_of kvs' ''status''"
    by simp_all
  then show ?thesis by (simp add: insertNoteSchema_def)
qed

lemma createNote_raise:
  "\<not> text_ok env (title x) \<or> date_in env (createdDate x) = None
     \<or> date_in env (completedDate x) = None \<Longrightarrow> createNote env st x = (st, Inl Error)"
  by (auto simp: createNote_def split: option.splits bool.splits)

lemma createNote_accept:
  "text_ok env (title x) \<Longrightarrow> date_in env (createdDate x) = Some c
     \<Longrightarrow> date_in env (completedDate x) = Some d \<Longrightarrow>
   createNote env st x =
     (if max_integer < notes_id_seq st then (st, Inl Error)
      else if notes_id_seq st \<in> set (map note_id (notes_tbl st))
         \<or> userId x \<notin> set (map user_id (users st))
      then (st\<lparr>notes_id_seq := notes_id_seq st + 1\<rparr>, Inl Error)
      else (st\<lparr>notes_id_seq := notes_id_seq st + 1,
               notes_tbl := notes_tbl st @ [\<lparr>title = title x, createdDate = c, completedDate = d,
                   status = status x, userId = userId x, note_id = notes_id_seq st\<rparr>]\<rparr>,
            Inr \<lparr>title = title x, createdDate = c, completedDate = d,
                   status = status x, userId = userId x, note_id = notes_id_seq st\<rparr>))"
  by (simp add: createNote_def Let_def)

lemma createNote_cases:
  assumes h: "createNote env st x = (st', r)"
  obtains (raised) "r = Inl Error" "notes_tbl st' = notes_tbl st" "users st' = users st"
      "sessions st' = sessions st" "users_id_seq st' = users_id_seq st"
  | (inserted) c d where "date_in env (createdDate x) = Some c" "date_in env (completedDate x) = Some d"
      "r = Inr \<lparr>title = title x, createdDate = c, completedDate = d, status = status x,
                userId = userId x, note_id = notes_id_seq st\<rparr>"
      "st' = st\<lparr>notes_id_seq := notes_id_seq st + 1,
                notes_tbl := notes_tbl st @ [\<lparr>title = title x, createdDate = c, completedDate = d,
                   status = status x, userId = userId x, note_id = notes_id_seq st\<rparr>]\<rparr>"
proof (cases "\<not> text_ok env (title x) \<or> date_in env (createdDate x) = None
     \<or> date_in env (completedDate x) = None")
  case True
  from createNote_raise[OF True, of st] h have "st' = st" "r = Inl Error" by simp_all
  then show ?thesis using raised by simp
next
  case False
  then obtain c d where ok: "text_ok env (title x)" "date_in env (createdDate x) = Some c"
    "date_in env (completedDate x) = Some d" by auto
  note acc = createNote_accept[OF ok, of st]
  show ?thesis
  proof (cases "max_integer < notes_id_seq st")
    case True
    with acc h have "st' = st" "r = Inl Error" by simp_all
    then show ?thesis using raised by simp
  next
    case in_range: False
    show ?thesis
    proof (cases "notes_id_seq st \<in> set (map note_id (notes_tbl st))
           \<or> userId x \<notin> set (map user_id (users st))")
      case True
      with acc h in_range have "st' = st\<lparr>notes_id_seq := notes_id_seq st + 1\<rparr>" "r = Inl Error"
        by simp_all
      then show ?thesis using raised by simp
    next
      case False
      with acc h in_range
      have "r = Inr \<lparr>title = title x, createdDate = c, completedDate = d, status = status x,
                  userId = userId x, note_id = notes_id_seq st\<rparr>"
        "st' = st\<lparr>notes_id_seq := notes_id_seq st + 1,
                  notes_tbl := notes_tbl st @ [\<lparr>title = title x, createdDate = c, completedDate = d,
                     status = status x, userId = userId x, note_id = notes_id_seq st\<rparr>]\<rparr>"
        by simp_all
      with ok show ?thesis using inserted by blast
    qed
  qed
qed

lemma post_notes_auth:
  "sessions st s = Some uid \<Longrightarrow> uid \<noteq> 0 \<Longrightarrow>
   post_notes env st s body =
     (case insertNoteSchema body of
         Inl issues \<Rightarrow> (st, zod_response env issues)
       | Inr validatedData \<Rightarrow>
           (case createNote env st
                   \<lparr>title = title validatedData, createdDate = createdDate validatedData,
                    completedDate = completedDate validatedData,
                    status = status validatedData, userId = uid\<rparr> of
              (st', Inl e) \<Rightarrow> (st', (500, message_json msg_erro_criar))
            | (st', Inr n) \<Rightarrow> (st', (200, note_json n))))"
  by (simp add: post_notes_def requireAuth_Some)

lemma post_notes_cases:
  assumes "post_notes env st s body = (st', resp)"
  obtains (refused) "notes_tbl st' = notes_tbl st" "users st' = users st" "sessions st' = sessions st"
      "fst resp \<noteq> 200"
  | (created) uid v c d where "sessions st s = Some uid" "uid \<noteq> 0" "insertNoteSchema body = Inr v"
      "date_in env (createdDate v) = Some c" "date_in env (completedDate v) = Some d"
      "resp = (200, note_json \<lparr>title = title v, createdDate = c, completedDate = d, status = status v,
                userId = uid, note_id = notes_id_seq st\<rparr>)"
      "st' = st\<lparr>notes_id_seq := notes_id_seq st + 1,
                notes_tbl := notes_tbl st @ [\<lparr>title = title v, createdDate = c, completedDate = d,
                   status = status v, userId = uid, note_id = notes_id_seq st\<rparr>]\<rparr>"
proof (cases "sessions st s")
  case None
  with assms have "st' = st" "fst resp \<noteq> 200" by (auto simp: post_notes_def requireAuth_def)
  then show ?thesis using refused by simp
next
  case (Some uid)
  show ?thesis
  proof (cases "uid = 0")
    case True
    with assms Some have "st' = st" "fst resp \<noteq> 200" by (auto simp: post_notes_def requireAuth_def)
    then show ?thesis using refused by simp
  next
    case False
    note auth = post_notes_auth[OF Some False, of env body]
    show ?thesis
    proof (cases "insertNoteSchema body")
      case (Inl issues)
      with assms auth have "st' = st" "fst resp \<noteq> 200" by (auto simp: zod_response_def)
      then show ?thesis using refused by simp
    next
      case (Inr v)
      obtain st1 r where c: "createNote env st \<lparr>title = title v, createdDate = createdDate v,
                    completedDate = completedDate v, status = status v, userId = uid\<rparr> = (st1, r)"
        by (meson surj_pair)
      from c show ?thesis
      proof (cases rule: createNote_cases)
        case raised
        with assms auth Inr c have "st' = st1" "fst resp \<noteq> 200" by auto
        with raised show ?thesis using refused by simp
      next
        case (inserted c' d')
        with assms auth Inr c have "st' = st1" "resp = (200, note_json \<lparr>title = title v, createdDate = c',
             completedDate = d', status = status v, userId = uid, note_id = notes_id_seq st\<rparr>)"
          by auto
        with inserted Some False Inr show ?thesis using created[of uid v c' d'] by simp
      qed
    qed
  qed
qed

text \<open>
  Claim C3. For a request on a session that holds the user id \<open>u\<close>: whenever the create
  route answers 200, the note it returns is the one row it added, and that row's
  \<open>userId\<close> is \<open>u\<close>. The body's own \<open>userId\<close> member plays no part: two
  bodies that differ only in that member get the same response and the same new state.
\<close>

theorem C3_owner_from_session:
  assumes "sessions st s = Some u"
  shows "(post_notes env st s body = (st', (200, j)) \<longrightarrow>
            (\<exists>n. j = note_json n \<and> userId n = u \<and> notes_tbl st' = notes_tbl st @ [n]))
    \<and> ((\<forall>k. k \<noteq> ''userId'' \<longrightarrow> map_of kvs k = map_of kvs' k) \<longrightarrow>
            post_notes env st s (JObj kvs) = post_notes env st s (JObj kvs'))"
proof (intro conjI impI)
  assume h: "post_notes env st s body = (st', (200, j))"
  from h show "\<exists>n. j = note_json n \<and> userId n = u \<and> notes_tbl st' = notes_tbl st @ [n]"
  proof (cases rule: post_notes_cases)
    case refused
    then show ?thesis by simp
  next
    case (created uid v c d)
    with assms show ?thesis by auto
  qed
next
  assume "\<forall>k. k \<noteq> ''userId'' \<longrightarrow> map_of kvs k = map_of kvs' k"
  then have "insertNoteSchema (JObj kvs) = insertNoteSchema (JObj kvs')"
    by (rule insertNoteSchema_keys)
  then show "post_notes env st s (JObj kvs) = post_notes env st s (JObj kvs')"
    by (simp add: post_notes_def)
qed

lemma bills_valid:
  "insertNoteSchema bills_body = Inr \<lparr>title = ''Pay bills'', createdDate = ''2024-01-01'',
     completedDate = ''2024-01-01'', status = A_Fazer\<rparr>"
  by (simp add: insertNoteSchema_def bills_body_def schema_defs)

lemma post_bills:
  "post_notes demo_env demo_state 5 bills_body
     = (demo_state2, (200, note_json \<lparr>title = ''Pay bills'', createdDate = ''2024-01-01'',
        completedDate = ''2024-01-01'', status = A_Fazer, userId = 1, note_id = 2\<rparr>))"
  by (simp add: post_notes_def requireAuth_def bills_valid createNote_def Let_def demo_state2_def
      demo_defs spec_calendar_date_20240101)

theorem C3_witness:
  "sessions demo_state 5 = Some 1
   \<and> post_notes demo_env demo_state 5 forged_body
     = (demo_state2, (200, note_json \<lparr>title = ''Pay bills'', createdDate = ''2024-01-01'',
        completedDate = ''2024-01-01'', status = A_Fazer, userId = 1, note_id = 2\<rparr>))"
proof -
  have 1: "sessions demo_state 5 = Some 1" by (simp add: demo_defs)
  have 2: "\<forall>k. k \<noteq> ''userId'' \<longrightarrow>
     map_of [(''userId'', JNum 2), (''id'', JNum 7), (''title'', JStr ''Pay bills''),
                       (''createdDate'', JStr ''2024-01-01''),
                       (''completedDate'', JStr ''2024-01-01''), (''status'', JStr ''A Fazer'')] k
     = map_of [(''id'', JNum 7), (''title'', JStr ''Pay bills''),
                       (''createdDate'', JStr ''2024-01-01''),
                       (''completedDate'', JStr ''2024-01-01''), (''status'', JStr ''A Fazer'')] k"
    by simp
  have 3: "post_notes demo_env demo_state 5 (JObj [(''id'', JNum 7), (''title'', JStr ''Pay bills''),
                       (''createdDate'', JStr ''2024-01-01''),
                       (''completedDate'', JStr ''2024-01-01''), (''status'', JStr ''A Fazer'')])
        = post_notes demo_env demo_state 5 bills_body"
    by (simp add: post_notes_def insertNoteSchema_def bills_body_def)
  from C3_owner_from_session [OF 1, of demo_env] 2
  have "post_notes demo_env demo_state 5 forged_body
        = post_notes demo_env demo_state 5 (JObj [(''id'', JNum 7), (''title'', JStr ''Pay bills''),
                       (''createdDate'', JStr ''2024-01-01''),
                       (''completedDate'', JStr ''2024-01-01''), (''status'', JStr ''A Fazer'')])"
    unfolding forged_body_def by blast
  with 1 3 post_bills show ?thesis by simp
qed

subsection \<open>Create, then list\<close>

lemma get_notes_auth:
  "sessions st s = Some uid \<Longrightarrow> uid \<noteq> 0 \<Longrightarrow>
   get_notes st s = (st, (200, JArr (map note_json (getNotesByUserId st uid))))"
  by (simp add: get_notes_def requireAuth_Some)

lemma reachable_session_user:
  assumes "reachable env st" "sessions st s = Some u"
  shows "u \<in> set (map user_id (users st))" "u \<noteq> 0"
proof -
  from reachable_inv[OF assms(1)] have si: "sessions_inv st" and ui: "users_inv st" by simp_all
  from si assms(2) show m: "u \<in> set (map user_id (users st))" by (simp add: sessions_inv_def)
  with ui show "u \<noteq> 0" by (auto simp: users_inv_def list_all_iff)
qed

lemma notes_inv_fresh: "notes_inv st \<Longrightarrow> notes_id_seq st \<notin> set (map note_id (notes_tbl st))"
  by (auto simp: notes_inv_def list_all_iff)

text \<open>
  Claim C6, as amended. In a reachable state whose identity counter has not run out, let
  the session hold the user id \<open>u\<close> and let the body pass \<open>insertNoteSchema\<close> as
  \<open>v\<close>, with a title the text column takes and two dates the date column takes,
  giving them back as \<open>c\<close> and \<open>d\<close>. Then the create route answers 200 with the
  note that has the submitted title and status, the dates \<open>c\<close> and \<open>d\<close>, the
  owner \<open>u\<close> and the next id of the identity column, and the list route, on the
  resulting state and the same session, answers 200 with the user's notes, this note
  among them. The dates of the note are the submitted ones when the column gives them
  back as they were written.
\<close>

theorem C6_create_then_list:
  assumes r: "reachable env st"
    and auth: "sessions st s = Some u"
    and valid: "insertNoteSchema body = Inr v"
    and stored: "text_ok env (title v)" "date_in env (createdDate v) = Some c"
      "date_in env (completedDate v) = Some d"
    and room: "notes_id_seq st \<le> max_integer"
  shows "\<exists>n st'. n = \<lparr>title = title v, createdDate = c, completedDate = d,
                      status = status v, userId = u, note_id = notes_id_seq st\<rparr>
           \<and> given body ''title'' = Some (JStr (title n))
           \<and> given body ''status'' = Some (JStr (status_text (status n)))
           \<and> given body ''createdDate'' = Some (JStr (createdDate v))
           \<and> given body ''completedDate'' = Some (JStr (completedDate v))
           \<and> post_notes env st s body = (st', (200, note_json n))
           \<and> get_notes st' s = (st', (200, JArr (map note_json (getNotesByUserId st' u))))
           \<and> n \<in> set (getNotesByUserId st' u)"
proof -
  let ?n = "\<lparr>title = title v, createdDate = c, completedDate = d, status = status v,
                      userId = u, note_id = notes_id_seq st\<rparr>"
  let ?st' = "st\<lparr>notes_id_seq := notes_id_seq st + 1, notes_tbl := notes_tbl st @ [?n]\<rparr>"
  from reachable_session_user[OF r auth]
  have u: "u \<in> set (map user_id (users st))" "u \<noteq> 0" by simp_all
  from reachable_inv[OF r] have "notes_inv st" by simp
  then have fresh: "notes_id_seq st \<notin> set (map note_id (notes_tbl st))"
    by (rule notes_inv_fresh)
  have c: "createNote env st \<lparr>title = title v, createdDate = createdDate v,
                    completedDate = completedDate v, status = status v, userId = u\<rparr>
            = (?st', Inr ?n)"
    using createNote_accept[of env "\<lparr>title = title v, createdDate = createdDate v,
                    completedDate = completedDate v, status = status v, userId = u\<rparr>"
                    c d st] stored u fresh room
    by simp
  have p: "post_notes env st s body = (?st', (200, note_json ?n))"
    using post_notes_auth[OF auth u(2), of env body] valid c by simp
  have s': "sessions ?st' s = Some u" using auth by simp
  have g: "get_notes ?st' s = (?st', (200, JArr (map note_json (getNotesByUserId ?st' u))))"
    by (rule get_notes_auth[OF s' u(2)])
  have m: "?n \<in> set (getNotesByUserId ?st' u)"
    by (simp add: getNotesByUserId_def)
  from valid have b: "given body ''title'' = Some (JStr (title ?n))"
    "given body ''status'' = Some (JStr (status_text (status ?n)))"
    "given body ''createdDate'' = Some (JStr (createdDate v))"
    "given body ''completedDate'' = Some (JStr (completedDate v))"
    by (simp_all add: insertNoteSchema_Inr)
  from p g m b show ?thesis by blast
qed

text \<open>
  The claim as stated (the listed note's dates equal the submitted values for every valid
  input) fails: \<open>Jan 5 2024\<close> passes validation and the date column takes it, and
  the note that is created and listed has the \<open>createdDate\<close> \<open>2024-01-05\<close>; no
  listed note has the submitted one.
\<close>

lemma jan_valid:
  "insertNoteSchema jan_body = Inr \<lparr>title = ''Dentist'', createdDate = ''Jan 5 2024'',
     completedDate = ''2024-01-05'', status = A_Fazer\<rparr>"
  by (simp add: insertNoteSchema_def jan_body_def schema_defs)

lemma spec_calendar_date_20240105: "spec_calendar_date ''2024-01-05''"
  by code_simp

lemma not_calendar_date_jan: "\<not> spec_calendar_date ''Jan 5 2024''"
  by code_simp

lemma post_jan:
  "post_notes demo_env demo_state 5 jan_body = (jan_state, (200, note_json jan_row))"
  by (simp add: post_notes_def requireAuth_def jan_valid createNote_def Let_def jan_state_def
      jan_row_def demo_defs spec_calendar_date_20240105 not_calendar_date_jan)

theorem C6_counterexample:
  "sessions demo_state 5 = Some 1
   \<and> insertNoteSchema jan_body = Inr \<lparr>title = ''Dentist'', createdDate = ''Jan 5 2024'',
        completedDate = ''2024-01-05'', status = A_Fazer\<rparr>
   \<and> post_notes demo_env demo_state 5 jan_body = (jan_state, (200, note_json jan_row))
   \<and> get_notes jan_state 5 = (jan_state, (200, JArr [note_json bills_row, note_json jan_row]))
   \<and> createdDate jan_row = ''2024-01-05''
   \<and> createdDate jan_row \<noteq> ''Jan 5 2024'' \<and> createdDate bills_row \<noteq> ''Jan 5 2024''"
  by (simp add: jan_valid post_jan)
     (simp add: get_notes_def requireAuth_def getNotesByUserId_def jan_state_def jan_row_def
        demo_defs)

theorem C6_witness:
  "post_notes demo_env demo_state 5 jan_body = (jan_state, (200, note_json jan_row))
   \<and> get_notes jan_state 5
     = (jan_state, (200, JArr (map note_json (getNotesByUserId jan_state 1))))
   \<and> jan_row \<in> set (getNotesByUserId jan_state 1)"
proof -
  have 1: "sessions demo_state 5 = Some 1" by (simp add: demo_defs)
  have 2: "text_ok demo_env (title \<lparr>title = ''Dentist'', createdDate = ''Jan 5 2024'',
     completedDate = ''2024-01-05'', status = A_Fazer\<rparr>)" by (simp add: demo_env_def)
  have 3: "date_in demo_env (createdDate \<lparr>title = ''Dentist'', createdDate = ''Jan 5 2024'',
     completedDate = ''2024-01-05'', status = A_Fazer\<rparr>) = Some ''2024-01-05''"
    by (simp add: demo_env_def not_calendar_date_jan)
  have 4: "date_in demo_env (completedDate \<lparr>title = ''Dentist'', createdDate = ''Jan 5 2024'',
     completedDate = ''2024-01-05'', status = A_Fazer\<rparr>) = Some ''2024-01-05''"
    by (simp add: demo_env_def spec_calendar_date_20240105)
  have 5: "notes_id_seq demo_state \<le> max_integer" by (simp add: demo_defs)
  have 6: "\<lparr>title = title \<lparr>title = ''Dentist'', createdDate = ''Jan 5 2024'',
                 completedDate = ''2024-01-05'', status = A_Fazer\<rparr>,
             createdDate = ''2024-01-05'', completedDate = ''2024-01-05'',
             status = status \<lparr>title = ''Dentist'', createdDate = ''Jan 5 2024'',
                 completedDate = ''2024-01-05'', status = A_Fazer\<rparr>,
             userId = 1, note_id = notes_id_seq demo_state\<rparr> = jan_row"
    by (simp add: jan_row_def demo_defs)
  from C6_create_then_list [OF reachable_demo_state 1 jan_valid 2 3 4 5]
  show ?thesis unfolding 6 post_jan by auto
qed

subsection \<open>What the create route validates\<close>

lemma post_notes_invalid:
  "sessions st s = Some uid \<Longrightarrow> uid \<noteq> 0 \<Longrightarrow> insertNoteSchema body = Inl issues \<Longrightarrow>
   post_notes env st s body = (st, (400, message_json (fromZodError env issues)))"
  by (simp add: post_notes_auth zod_response_def)

lemma post_notes_db_rejects:
  "sessions st s = Some uid \<Longrightarrow> uid \<noteq> 0 \<Longrightarrow> insertNoteSchema body = Inr v \<Longrightarrow>
   date_in env (createdDate v) = None \<or> date_in env (completedDate v) = None \<Longrightarrow>
   post_notes env st s body = (st, (500, message_json msg_erro_criar))"
  using createNote_raise[of env "\<lparr>title = title v, createdDate = createdDate v,
      completedDate = completedDate v, status = status v, userId = uid\<rparr>" st]
  by (auto simp: post_notes_auth)

lemma post_notes_persists_validated:
  assumes "notes_tbl (fst (post_notes env st s body)) \<noteq> notes_tbl st"
  shows "\<exists>v. insertNoteSchema body = Inr v"
proof -
  obtain st' resp where h: "post_notes env st s body = (st', resp)" by (meson surj_pair)
  from h show ?thesis
  proof (cases rule: post_notes_cases)
    case refused
    with assms h show ?thesis by simp
  next
    case (created uid v c d)
    then show ?thesis by blast
  qed
qed

text \<open>
  Claim C8, as amended. The create route validates before it persists: the body passes
  \<open>insertNoteSchema\<close> exactly when its title is a non-empty string, its
  \<open>createdDate\<close> is a string, its \<open>completedDate\<close> is a non-empty string and its
  status is one of the two status texts; a body that does not pass is answered 400 with
  the message built from the issues and the state is returned as it was; a row is added
  only for a body that passed. Whether the two dates are calendar dates is not validated:
  for a body that passes with a date the database rejects, the route answers 500 and the
  state is returned as it was.
\<close>

theorem C8_create_validation:
  "(insertNoteSchema body = Inr v \<longleftrightarrow>
      given body ''title'' = Some (JStr (title v)) \<and> title v \<noteq> []
      \<and> given body ''createdDate'' = Some (JStr (createdDate v))
      \<and> given body ''completedDate'' = Some (JStr (completedDate v)) \<and> completedDate v \<noteq> []
      \<and> given body ''status'' = Some (JStr (status_text (status v))))
   \<and> (sessions st s = Some uid \<and> uid \<noteq> 0 \<and> insertNoteSchema body = Inl issues \<longrightarrow>
        post_notes env st s body = (st, (400, message_json (fromZodError env issues))))
   \<and> (notes_tbl (fst (post_notes env st s body)) \<noteq> notes_tbl st \<longrightarrow>
        (\<exists>v'. insertNoteSchema body = Inr v'))
   \<and> (sessions st s = Some uid \<and> uid \<noteq> 0 \<and> insertNoteSchema body = Inr v
        \<and> (date_in env (createdDate v) = None \<or> date_in env (completedDate v) = None) \<longrightarrow>
        post_notes env st s body = (st, (500, message_json msg_erro_criar)))"
  using insertNoteSchema_Inr[of body v] post_notes_invalid[of st s uid body issues env]
    post_notes_persists_validated[of env st s body] post_notes_db_rejects[of st s uid body v env]
  by blast

lemma undated_valid:
  "insertNoteSchema undated_body = Inr \<lparr>title = ''Pay bills'', createdDate = ''amanha'',
     completedDate = ''amanha'', status = A_Fazer\<rparr>"
  by (simp add: insertNoteSchema_def undated_body_def schema_defs)

lemma not_calendar_date_amanha: "\<not> spec_calendar_date ''amanha''"
  by (simp add: spec_calendar_date_def)

text \<open>
  The claim as stated (an input whose dates are not well-formed calendar dates fails with
  a validation error) fails: \<open>amanha\<close> is no calendar date, the body passes
  validation, and the failure is the database's, answered 500.
\<close>

theorem C8_counterexample:
  "\<not> spec_calendar_date ''amanha''
   \<and> insertNoteSchema undated_body = Inr \<lparr>title = ''Pay bills'', createdDate = ''amanha'',
        completedDate = ''amanha'', status = A_Fazer\<rparr>
   \<and> post_notes demo_env demo_state 5 undated_body
        = (demo_state, (500, message_json msg_erro_criar))"
  by (simp add: undated_valid not_calendar_date_amanha post_notes_def requireAuth_def
      createNote_def demo_defs)

lemma untitled_invalid:
  "insertNoteSchema untitled_body = Inl [Issue [''title''] too_small (Some msg_tarefa_obrigatoria)]"
  by (simp add: insertNoteSchema_def untitled_body_def schema_defs)

theorem C8_witness:
  "post_notes demo_env demo_state 5 untitled_body
     = (demo_state, (400, message_json (fromZodError demo_env
          [Issue [''title''] too_small (Some msg_tarefa_obrigatoria)])))
   \<and> post_notes demo_env demo_state 5 undated_body
        = (demo_state, (500, message_json msg_erro_criar))
   \<and> given bills_body ''title'' = Some (JStr ''Pay bills'')"
proof -
  have 1: "sessions demo_state 5 = Some 1 \<and> (1::int) \<noteq> 0" by (simp add: demo_defs)
  have 2: "date_in demo_env (createdDate \<lparr>title = ''Pay bills'', createdDate = ''amanha'',
     completedDate = ''amanha'', status = A_Fazer\<rparr>) = None"
    by (simp add: demo_env_def not_calendar_date_amanha)
  from C8_create_validation [of untitled_body _ demo_state 5 1
        "[Issue [''title''] too_small (Some msg_tarefa_obrigatoria)]" demo_env]
    C8_create_validation [of undated_body "\<lparr>title = ''Pay bills'', createdDate = ''amanha'',
        completedDate = ''amanha'', status = A_Fazer\<rparr>" demo_state 5 1 _ demo_env]
    C8_create_validation [of bills_body "\<lparr>title = ''Pay bills'', createdDate = ''2024-01-01'',
        completedDate = ''2024-01-01'', status = A_Fazer\<rparr>"]
    1 2 untitled_invalid undated_valid bills_valid
  show ?thesis by simp
qed

section \<open>Login\<close>



lemma login_ok:
  "post_auth_login env st s body = (st', (200, j)) \<longleftrightarrow>
     (\<exists>v u. loginSchema env body = Inr v \<and> getUserByEmail st (l_email v) = Some u
        \<and> bcrypt_compare env (l_password v) (password u)
        \<and> st' = st\<lparr>sessions := (sessions st)(s \<mapsto> user_id u)\<rparr> \<and> j = user_json u)"
  by (auto simp: post_auth_login_def zod_response_def split: sum.splits option.splits)















section \<open>Passwords and profiles\<close>

lemma register_ok:
  assumes "post_auth_register env salt st s body = (st', (200, j))"
  shows "\<exists>v u. insertUserSchema env body = Inr v \<and> users st' = users st @ [u]
           \<and> name u = name v \<and> email u = email v
           \<and> password u = bcrypt_hash env (password v) salt
           \<and> notes_tbl st' = notes_tbl st \<and> j = user_json u"
  using assms
proof (cases rule: register_cases)
  case rejected
  then show ?thesis by simp
next
  case (failed v st1 e)
  then show ?thesis by simp
next
  case (created v st1 u)
  from createUser_cases[OF created(3)] created show ?thesis by auto
qed

lemma getUser_Some: "getUser st i = Some u \<Longrightarrow> u \<in> set (users st) \<and> user_id u = i"
  by (auto simp: getUser_def dest: find_in_set)

lemma me_ok:
  assumes "get_auth_me st s = (st', (200, j))"
  shows "st' = st \<and> (\<exists>u. u \<in> set (users st) \<and> sessions st s = Some (user_id u) \<and> j = user_json u)"
  using assms
  by (auto simp: get_auth_me_def requireAuth_def split: option.splits if_splits dest: getUser_Some)

lemma user_json_members:
  "\<exists>p. user_json u = JObj [(''user'', p)] \<and> member_names p = [''id'', ''name'', ''email'']
        \<and> given p ''id'' = Some (JNum (user_id u)) \<and> given p ''name'' = Some (JStr (name u))
        \<and> given p ''email'' = Some (JStr (email u))"
  by (simp add: user_json_def member_names_def)

text \<open>
  Claim C9. When registration answers 200, the one user row it added holds the submitted
  name and email, and as password the hash \<open>bcrypt_hash\<close> of the submitted password;
  the notes are untouched. Every 200 response of the register, login and whoami routes is
  the profile of a stored user, and a profile is an object with the single member
  \<open>user\<close>, whose members are exactly \<open>id\<close>, \<open>name\<close> and \<open>email\<close>, with
  that user's values: there is no password member.
\<close>

theorem C9_password_hashed_profile_only:
  "(post_auth_register env salt st s body = (st', (200, j)) \<longrightarrow>
      (\<exists>v u. insertUserSchema env body = Inr v \<and> users st' = users st @ [u]
         \<and> name u = name v \<and> email u = email v
         \<and> password u = bcrypt_hash env (password v) salt
         \<and> notes_tbl st' = notes_tbl st \<and> j = user_json u))
   \<and> (post_auth_login env st s body = (st', (200, j)) \<longrightarrow>
        users st' = users st \<and> notes_tbl st' = notes_tbl st
        \<and> (\<exists>u. u \<in> set (users st) \<and> j = user_json u))
   \<and> (get_auth_me st s = (st', (200, j)) \<longrightarrow>
        st' = st \<and> (\<exists>u. u \<in> set (users st) \<and> j = user_json u))
   \<and> (\<exists>p. user_json u = JObj [(''user'', p)] \<and> member_names p = [''id'', ''name'', ''email'']
        \<and> given p ''id'' = Some (JNum (user_id u)) \<and> given p ''name'' = Some (JStr (name u))
        \<and> given p ''email'' = Some (JStr (email u)))"
proof (intro conjI impI)
  assume "post_auth_register env salt st s body = (st', (200, j))"
  then show "\<exists>v u. insertUserSchema env body = Inr v \<and> users st' = users st @ [u]
         \<and> name u = name v \<and> email u = email v
         \<and> password u = bcrypt_hash env (password v) salt
         \<and> notes_tbl st' = notes_tbl st \<and> j = user_json u"
    by (rule register_ok)
next
  assume h: "post_auth_login env st s body = (st', (200, j))"
  from h[unfolded login_ok]
  obtain v u where v: "loginSchema env body = Inr v"
    and u: "getUserByEmail st (l_email v) = Some u"
    and st': "st' = st\<lparr>sessions := (sessions st)(s \<mapsto> user_id u)\<rparr>" and j: "j = user_json u"
    by blast
  from st' show "users st' = users st" by simp
  from st' show "notes_tbl st' = notes_tbl st" by simp
  from getUserByEmail_Some[OF u] j show "\<exists>u. u \<in> set (users st) \<and> j = user_json u" by blast
next
  assume h: "get_auth_me st s = (st', (200, j))"
  from me_ok[OF h] show "st' = st" by simp
  from me_ok[OF h] show "\<exists>u. u \<in> set (users st) \<and> j = user_json u" by blast
next
  show "\<exists>p. user_json u = JObj [(''user'', p)] \<and> member_names p = [''id'', ''name'', ''email'']
        \<and> given p ''id'' = Some (JNum (user_id u)) \<and> given p ''name'' = Some (JStr (name u))
        \<and> given p ''email'' = Some (JStr (email u))"
    by (rule user_json_members)
qed

lemma register_carol:
  "post_auth_register demo_env ''s3'' demo_state 8 carol_body
     = (demo_state\<lparr>users_id_seq := 4, users := [ana_row, bob_row, carol_row],
                    sessions := [5 \<mapsto> 1, 6 \<mapsto> 2, 8 \<mapsto> 3]\<rparr>, (200, user_json carol_row))"
  by (simp add: post_auth_register_def insertUserSchema_def carol_body_def schema_defs
      getUserByEmail_def createUser_def Let_def demo_defs carol_row_def)

theorem C9_witness:
  "post_auth_register demo_env ''s3'' demo_state 8 carol_body
     = (demo_state\<lparr>users_id_seq := 4, users := [ana_row, bob_row, carol_row],
                    sessions := [5 \<mapsto> 1, 6 \<mapsto> 2, 8 \<mapsto> 3]\<rparr>, (200, user_json carol_row))
   \<and> (\<exists>v u. insertUserSchema demo_env carol_body = Inr v
         \<and> [ana_row, bob_row, carol_row] = users demo_state @ [u]
         \<and> password u = bcrypt_hash demo_env (password v) ''s3''
         \<and> user_json carol_row = user_json u)"
proof -
  from C9_password_hashed_profile_only [of demo_env "''s3''" demo_state 8 carol_body
      "demo_state\<lparr>users_id_seq := 4, users := [ana_row, bob_row, carol_row],
                    sessions := [5 \<mapsto> 1, 6 \<mapsto> 2, 8 \<mapsto> 3]\<rparr>" "user_json carol_row"]
    register_carol
  have "\<exists>v u. insertUserSchema demo_env carol_body = Inr v
         \<and> users (demo_state\<lparr>users_id_seq := 4, users := [ana_row, bob_row, carol_row],
                    sessions := [5 \<mapsto> 1, 6 \<mapsto> 2, 8 \<mapsto> 3]\<rparr>) = users demo_state @ [u]
         \<and> password u = bcrypt_hash demo_env (password v) ''s3''
         \<and> user_json carol_row = user_json u"
    by blast
  with register_carol show ?thesis by simp
qed

section \<open>Marking a note completed\<close>

lemma completed_ids [simp]: "note_id (completed d n) = note_id n" "userId (completed d n) = userId n"
  by (simp_all add: completed_def)

lemma completed_twice [simp]: "completed d2 (completed d1 n) = completed d2 n"
  by (simp add: completed_def)

lemma markCompleted_body_valid:
  "d \<noteq> [] \<Longrightarrow> insertNoteSchema_partial (markCompleted_body d)
     = Inr \<lparr>p_title = None, p_createdDate = None, p_completedDate = Some d,
            p_status = Some Concluida\<rparr>"
  by (simp add: insertNoteSchema_partial_def markCompleted_body_def z_optional_def
      z_string_min_def z_string_def z_enum_status_def issues_of_def status_text_inject)

lemma markCompleted_bind:
  "date_in env d = Some c \<Longrightarrow>
   bind_update env \<lparr>p_title = None, p_createdDate = None, p_completedDate = Some d,
            p_status = Some Concluida\<rparr>
     = Some \<lparr>p_title = None, p_createdDate = None, p_completedDate = Some c,
            p_status = Some Concluida\<rparr>"
  by (simp add: bind_update_def bind_date_def)

lemma set_columns_completed:
  "set_columns \<lparr>p_title = None, p_createdDate = None, p_completedDate = Some d,
            p_status = Some Concluida\<rparr> n = completed d n"
  by (simp add: set_columns_def completed_def)

lemma find_map_unique:
  assumes "distinct (map note_id ns)" "n \<in> set ns" "\<And>m. note_id (f m) = note_id m"
    "\<And>m. userId (f m) = userId m"
  shows "find (\<lambda>m. note_id m = note_id n \<and> userId m = userId n)
           (map (\<lambda>m. if note_id m = note_id n \<and> userId m = userId n then f m else m) ns)
         = Some (f n)"
  using assms(1,2)
proof (induction ns)
  case Nil
  then show ?case by simp
next
  case (Cons a ns)
  show ?case
  proof (cases "a = n")
    case True
    then show ?thesis by (simp add: assms(3,4))
  next
    case False
    with Cons.prems have "n \<in> set ns" "note_id a \<noteq> note_id n" by (auto simp: image_iff)
    with Cons show ?thesis by simp
  qed
qed

lemma markCompleted_owner:
  assumes pk: "distinct (map note_id (notes_tbl st))"
    and n: "n \<in> set (notes_tbl st)"
    and auth: "sessions st s = Some (userId n)" "userId n \<noteq> 0"
    and param: "parseInt env idParam = Some (note_id n)"
    and d: "d \<noteq> []" "date_in env d = Some d"
  shows "markCompleted env st s idParam d
     = (st\<lparr>notes_tbl := map (\<lambda>m. if note_id m = note_id n \<and> userId m = userId n
                                    then completed d m else m) (notes_tbl st)\<rparr>,
        (200, note_json (completed d n)))"
proof -
  have f: "find (\<lambda>m. note_id m = note_id n \<and> userId m = userId n)
           (map (\<lambda>m. if note_id m = note_id n \<and> userId m = userId n then completed d m else m)
              (notes_tbl st)) = Some (completed d n)"
    by (rule find_map_unique[OF pk n]) simp_all
  show ?thesis
    unfolding markCompleted_def put_notes_id_def
    by (simp add: requireAuth_Some[OF auth] markCompleted_body_valid[OF d(1)] param
        updateNote_def markCompleted_bind[OF d(2)] set_columns_completed f Let_def cong: if_cong)
qed

lemma map_completed_unique:
  assumes "distinct (map note_id ns)" "n \<in> set ns"
  shows "completed d n \<in> set (map (\<lambda>m. if note_id m = note_id n \<and> userId m = userId n
                                    then completed d m else m) ns)"
  using assms(2) by (auto simp: image_iff intro!: bexI[of _ n])

lemma map_completed_ids:
  "map note_id (map (\<lambda>m. if P m then completed d m else m) ns) = map note_id ns"
  by (induction ns) auto

lemma map_completed_twice:
  "map (\<lambda>m. if note_id m = i \<and> userId m = u then completed d2 m else m)
     (map (\<lambda>m. if note_id m = i \<and> userId m = u then completed d1 m else m) ns)
   = map (\<lambda>m. if note_id m = i \<and> userId m = u then completed d2 m else m) ns"
  by (induction ns) auto

text \<open>
  Claim C7. Let \<open>n\<close> be a note of a table whose ids are a primary key, let the session
  hold its owner's id, let the route parameter be its id, and let \<open>d1\<close> and \<open>d2\<close> be
  two non-empty dates that the date column stores as they are. Then marking the note
  completed on \<open>d1\<close> answers 200 with the note, status \<open>Concluida\<close> and completion
  date \<open>d1\<close>, which is then in the table; marking it again on \<open>d2\<close> answers 200
  with the note, status \<open>Concluida\<close> and completion date \<open>d2\<close>, which is then in
  the table; and the state after the two calls is the state a single call on \<open>d2\<close>
  gives.
\<close>

theorem C7_markCompleted_twice:
  assumes pk: "distinct (map note_id (notes_tbl st))"
    and n: "n \<in> set (notes_tbl st)"
    and auth: "sessions st s = Some (userId n)" "userId n \<noteq> 0"
    and param: "parseInt env idParam = Some (note_id n)"
    and d1: "d1 \<noteq> []" "date_in env d1 = Some d1"
    and d2: "d2 \<noteq> []" "date_in env d2 = Some d2"
  shows "\<exists>st1 st2.
      markCompleted env st s idParam d1
        = (st1, (200, note_json (n\<lparr>completedDate := d1, status := Concluida\<rparr>)))
      \<and> n\<lparr>completedDate := d1, status := Concluida\<rparr> \<in> set (notes_tbl st1)
      \<and> markCompleted env st1 s idParam d2
        = (st2, (200, note_json (n\<lparr>completedDate := d2, status := Concluida\<rparr>)))
      \<and> n\<lparr>completedDate := d2, status := Concluida\<rparr> \<in> set (notes_tbl st2)
      \<and> markCompleted env st s idParam d2
        = (st2, (200, note_json (n\<lparr>completedDate := d2, status := Concluida\<rparr>)))"
proof -
  let ?upd = "\<lambda>d. map (\<lambda>m. if note_id m = note_id n \<and> userId m = userId n
                                    then completed d m else m)"
  let ?st1 = "st\<lparr>notes_tbl := ?upd d1 (notes_tbl st)\<rparr>"
  let ?st2 = "st\<lparr>notes_tbl := ?upd d2 (notes_tbl st)\<rparr>"
  have 1: "markCompleted env st s idParam d1 = (?st1, (200, note_json (completed d1 n)))"
    by (rule markCompleted_owner[OF pk n auth param d1])
  have m1: "completed d1 n \<in> set (notes_tbl ?st1)"
    using map_completed_unique[OF pk n, of d1] by simp
  have e: "map note_id (?upd d1 (notes_tbl st)) = map note_id (notes_tbl st)"
    by (rule map_completed_ids)
  have t: "notes_tbl ?st1 = ?upd d1 (notes_tbl st)"
    by simp
  have pk1: "distinct (map note_id (notes_tbl ?st1))"
    unfolding t e by (rule pk)
  have "markCompleted env ?st1 s idParam d2
     = (?st1\<lparr>notes_tbl := map (\<lambda>m. if note_id m = note_id (completed d1 n)
                                        \<and> userId m = userId (completed d1 n)
                                    then completed d2 m else m) (notes_tbl ?st1)\<rparr>,
        (200, note_json (completed d2 (completed d1 n))))"
    by (rule markCompleted_owner[OF pk1 m1 _ _ _ d2]) (use auth param in simp_all)
  then have 2: "markCompleted env ?st1 s idParam d2 = (?st2, (200, note_json (completed d2 n)))"
    by (simp add: map_completed_twice)
  have m2: "completed d2 n \<in> set (notes_tbl ?st2)"
    using map_completed_unique[OF pk n, of d2] by simp
  have 3: "markCompleted env st s idParam d2 = (?st2, (200, note_json (completed d2 n)))"
    by (rule markCompleted_owner[OF pk n auth param d2])
  from 1 m1 2 m2 3 show ?thesis unfolding completed_def by blast
qed

lemma spec_calendar_date_20240301: "spec_calendar_date ''2024-03-01''"
  by code_simp

lemma spec_calendar_date_20240302: "spec_calendar_date ''2024-03-02''"
  by code_simp

theorem C7_witness:
  "\<exists>st1 st2.
      markCompleted demo_env demo_state 5 ''1'' ''2024-03-01''
        = (st1, (200, note_json (bills_row\<lparr>completedDate := ''2024-03-01'', status := Concluida\<rparr>)))
      \<and> markCompleted demo_env st1 5 ''1'' ''2024-03-02''
        = (st2, (200, note_json (bills_row\<lparr>completedDate := ''2024-03-02'', status := Concluida\<rparr>)))
      \<and> bills_row\<lparr>completedDate := ''2024-03-02'', status := Concluida\<rparr> \<in> set (notes_tbl st2)"
proof -
  have 1: "distinct (map note_id (notes_tbl demo_state))" by (simp add: demo_defs)
  have 2: "bills_row \<in> set (notes_tbl demo_state)" by (simp add: demo_defs)
  have 3: "sessions demo_state 5 = Some (userId bills_row)" by (simp add: demo_defs)
  have 4: "userId bills_row \<noteq> 0" by (simp add: demo_defs)
  have 5: "parseInt demo_env ''1'' = Some (note_id bills_row)" by (simp add: demo_defs)
  have 6: "''2024-03-01'' \<noteq> []" "''2024-03-02'' \<noteq> []" by simp_all
  have 7: "date_in demo_env ''2024-03-01'' = Some ''2024-03-01''"
    by (simp add: demo_env_def spec_calendar_date_20240301)
  have 8: "date_in demo_env ''2024-03-02'' = Some ''2024-03-02''"
    by (simp add: demo_env_def spec_calendar_date_20240302)
  from C7_markCompleted_twice [OF 1 2 3 4 5 6(1) 7 6(2) 8]
  show ?thesis by blast
qed

section \<open>The owner of a note\<close>

lemma updateNote_effect:
  "updateNote env st i uid upd = (st', r) \<Longrightarrow>
     st' = st \<or> (\<exists>cols. st' = st\<lparr>notes_tbl := map (\<lambda>n. if note_id n = i \<and> userId n = uid
                                                   then set_columns cols n else n) (notes_tbl st)\<rparr>)"
  by (auto simp: updateNote_def Let_def split: option.splits)

lemma put_notes_id_effect:
  assumes "put_notes_id env st s idParam body = (st', resp)"
  shows "st' = st \<or> (\<exists>cols i uid. st' = st\<lparr>notes_tbl := map (\<lambda>n. if note_id n = i \<and> userId n = uid
                                                   then set_columns cols n else n) (notes_tbl st)\<rparr>)"
proof (cases "sessions st s")
  case None
  with assms show ?thesis by (simp add: put_notes_id_def requireAuth_def)
next
  case (Some uid)
  show ?thesis
  proof (cases "uid = 0")
    case True
    with assms Some show ?thesis by (simp add: put_notes_id_def requireAuth_def)
  next
    case False
    show ?thesis
    proof (cases "insertNoteSchema_partial body")
      case (Inl issues)
      with assms Some False show ?thesis by (simp add: put_notes_id_def requireAuth_def)
    next
      case (Inr upd)
      show ?thesis
      proof (cases "parseInt env idParam")
        case None
        with assms Some False Inr show ?thesis by (simp add: put_notes_id_def requireAuth_def)
      next
        case (Some i)
        obtain st1 r where u: "updateNote env st i uid upd = (st1, r)" by (meson surj_pair)
        with assms \<open>sessions st s = Some uid\<close> False Inr Some have "st' = st1"
          by (auto simp: put_notes_id_def requireAuth_def split: sum.splits option.splits)
        with updateNote_effect[OF u] show ?thesis by blast
      qed
    qed
  qed
qed

lemma delete_notes_id_effect:
  assumes "delete_notes_id env st s idParam = (st', resp)"
  shows "st' = st \<or> (\<exists>P. st' = st\<lparr>notes_tbl := filter P (notes_tbl st)\<rparr>)"
  using assms
  by (auto simp: delete_notes_id_def requireAuth_def deleteNote_def
      split: option.splits if_splits bool.splits)

lemma handle_notes_frame:
  assumes "handle env st r = (st', resp)"
    "(\<forall>s body. r \<noteq> CreateNote s body)" "(\<forall>s p body. r \<noteq> UpdateNote s p body)"
    "(\<forall>s p. r \<noteq> DeleteNote s p)"
  shows "notes_tbl st' = notes_tbl st \<and> notes_id_seq st' = notes_id_seq st"
proof (cases r)
  case (Register salt s body)
  with assms(1) have h: "post_auth_register env salt st s body = (st', resp)" by simp
  from h show ?thesis
  proof (cases rule: register_cases)
    case rejected
    then show ?thesis by simp
  next
    case (failed v st1 e)
    with createUser_cases[OF failed(3)] show ?thesis by simp
  next
    case (created v st1 u)
    with createUser_cases[OF created(3)] show ?thesis by simp
  qed
next
  case (Login s body)
  with assms(1) have h: "post_auth_login env st s body = (st', resp)" by simp
  from h show ?thesis by (cases rule: login_cases) simp_all
next
  case (Logout s)
  with assms(1) show ?thesis by (auto simp: post_auth_logout_def)
next
  case (Me s)
  with assms(1) show ?thesis
    by (auto simp: get_auth_me_def requireAuth_def split: option.splits if_splits)
next
  case (ListNotes s)
  with assms(1) show ?thesis
    by (auto simp: get_notes_def requireAuth_def split: option.splits if_splits)
qed (use assms in simp_all)

lemma updated_origin:
  "n \<in> set (map (\<lambda>m. if P m then set_columns cols m else m) ns) \<Longrightarrow>
     \<exists>m \<in> set ns. note_id m = note_id n \<and> userId m = userId n"
  by (induction ns) (auto split: if_splits)

lemma handle_origin:
  assumes h: "handle env st r = (st', resp)" and n: "n \<in> set (notes_tbl st')"
  shows "(\<exists>m \<in> set (notes_tbl st). note_id m = note_id n \<and> userId m = userId n)
     \<or> (\<exists>s body. r = CreateNote s body \<and> sessions st s = Some (userId n)
           \<and> note_id n = notes_id_seq st)"
proof (cases r)
  case (CreateNote s body)
  with h have "post_notes env st s body = (st', resp)" by simp
  then show ?thesis
  proof (cases rule: post_notes_cases)
    case refused
    with n show ?thesis by auto
  next
    case (created uid v c d)
    with n CreateNote show ?thesis by auto
  qed
next
  case (UpdateNote s p body)
  with h have "put_notes_id env st s p body = (st', resp)" by simp
  from put_notes_id_effect[OF this]
  have "\<exists>m \<in> set (notes_tbl st). note_id m = note_id n \<and> userId m = userId n"
  proof (elim disjE exE)
    assume "st' = st"
    with n show ?thesis by auto
  next
    fix cols i uid
    assume "st' = st\<lparr>notes_tbl := map (\<lambda>n. if note_id n = i \<and> userId n = uid
                                                   then set_columns cols n else n) (notes_tbl st)\<rparr>"
    with n have "n \<in> set (map (\<lambda>n. if note_id n = i \<and> userId n = uid
                                                   then set_columns cols n else n) (notes_tbl st))"
      by simp
    then show ?thesis by (rule updated_origin)
  qed
  then show ?thesis ..
next
  case (DeleteNote s p)
  with h have "delete_notes_id env st s p = (st', resp)" by simp
  from delete_notes_id_effect[OF this] n show ?thesis by auto
qed (use handle_notes_frame[OF h] n in auto)

lemma handle_seq_mono:
  assumes h: "handle env st r = (st', resp)"
  shows "notes_id_seq st \<le> notes_id_seq st'"
proof (cases r)
  case (CreateNote s body)
  with h have p: "post_notes env st s body = (st', resp)" by simp
  show ?thesis
  proof (cases "sessions st s")
    case None
    with p show ?thesis by (simp add: post_notes_def requireAuth_def)
  next
    case (Some uid)
    show ?thesis
    proof (cases "uid = 0")
      case True
      with p Some show ?thesis by (simp add: post_notes_def requireAuth_def)
    next
      case False
      show ?thesis
      proof (cases "insertNoteSchema body")
        case (Inl issues)
        with p post_notes_auth[OF Some False, of env body] show ?thesis by simp
      next
        case (Inr v)
        obtain st1 r1 where c: "createNote env st \<lparr>title = title v, createdDate = createdDate v,
              completedDate = completedDate v, status = status v, userId = uid\<rparr> = (st1, r1)"
          by (meson surj_pair)
        with p post_notes_auth[OF Some False, of env body] Inr have "st' = st1"
          by (auto split: sum.splits)
        moreover from c have "notes_id_seq st \<le> notes_id_seq st1"
          by (auto simp: createNote_def Let_def split: option.splits bool.splits if_splits)
        ultimately show ?thesis by simp
      qed
    qed
  qed
next
  case (UpdateNote s p body)
  with h have "put_notes_id env st s p body = (st', resp)" by simp
  from put_notes_id_effect[OF this] show ?thesis by auto
next
  case (DeleteNote s p)
  with h have "delete_notes_id env st s p = (st', resp)" by simp
  from delete_notes_id_effect[OF this] show ?thesis by auto
qed (use handle_notes_frame[OF h] in auto)

lemma step_origin:
  "n \<in> set (notes_tbl (step env st r)) \<Longrightarrow>
     (\<exists>m \<in> set (notes_tbl st). note_id m = note_id n \<and> userId m = userId n)
     \<or> (\<exists>s body. r = CreateNote s body \<and> sessions st s = Some (userId n)
           \<and> note_id n = notes_id_seq st)"
  using handle_origin[of env st r "fst (handle env st r)" "snd (handle env st r)" n]
  by (simp add: step_def)

lemma step_seq_mono: "notes_id_seq st \<le> notes_id_seq (step env st r)"
  using handle_seq_mono[of env st r "fst (handle env st r)" "snd (handle env st r)"]
  by (simp add: step_def)

lemma run_Cons: "run env st (r # rs) = run env (step env st r) rs"
  by (simp add: run_def)

lemma run_origin:
  "n \<in> set (notes_tbl (run env st rs)) \<Longrightarrow>
     (\<exists>m \<in> set (notes_tbl st). note_id m = note_id n \<and> userId m = userId n)
     \<or> notes_id_seq st \<le> note_id n"
proof (induction rs arbitrary: st)
  case Nil
  then show ?case by (auto simp: run_def)
next
  case (Cons r rs)
  from Cons.prems have "n \<in> set (notes_tbl (run env (step env st r) rs))"
    by (simp add: run_Cons)
  from Cons.IH[OF this] show ?case
  proof
    assume "\<exists>m \<in> set (notes_tbl (step env st r)). note_id m = note_id n \<and> userId m = userId n"
    then obtain m where m: "m \<in> set (notes_tbl (step env st r))" "note_id m = note_id n"
      "userId m = userId n" by blast
    from step_origin[OF m(1)] m(2,3) show ?thesis by auto
  next
    assume "notes_id_seq (step env st r) \<le> note_id n"
    with step_seq_mono[of st env r] show ?thesis by simp
  qed
qed

text \<open>
  Claim C10. From a state whose note ids are a primary key below the identity counter,
  and for every list of requests of any kind and with any bodies: a note in the final
  state with the id of a note of the initial state has that note's \<open>userId\<close>. And in
  one step, every note of the new state either has the id and \<open>userId\<close> of a note of
  the old state, or was added by a create request, has the identity counter's value as
  its id and as \<open>userId\<close> the user id that the request's session held.
\<close>

theorem C10_owner_immutable:
  assumes inv: "notes_inv st"
  shows "(m \<in> set (notes_tbl st) \<and> n \<in> set (notes_tbl (run env st rs))
            \<and> note_id n = note_id m \<longrightarrow> userId n = userId m)
    \<and> (n \<in> set (notes_tbl (step env st r)) \<longrightarrow>
          (\<exists>m' \<in> set (notes_tbl st). note_id m' = note_id n \<and> userId m' = userId n)
          \<or> (\<exists>s body. r = CreateNote s body \<and> sessions st s = Some (userId n)
                \<and> note_id n = notes_id_seq st))"
proof (intro conjI impI)
  assume a: "m \<in> set (notes_tbl st) \<and> n \<in> set (notes_tbl (run env st rs))
            \<and> note_id n = note_id m"
  from inv a have lt: "note_id m < notes_id_seq st"
    by (auto simp: notes_inv_def list_all_iff)
  from inv have inj: "inj_on note_id (set (notes_tbl st))"
    by (simp add: notes_inv_def distinct_map)
  from a run_origin[of n env st rs] lt obtain m' where m': "m' \<in> set (notes_tbl st)"
    "note_id m' = note_id n" "userId m' = userId n"
    by auto
  with a inj have "m' = m" by (auto dest: inj_onD)
  with m' show "userId n = userId m" by simp
next
  assume "n \<in> set (notes_tbl (step env st r))"
  then show "(\<exists>m' \<in> set (notes_tbl st). note_id m' = note_id n \<and> userId m' = userId n)
          \<or> (\<exists>s body. r = CreateNote s body \<and> sessions st s = Some (userId n)
                \<and> note_id n = notes_id_seq st)"
    by (rule step_origin)
qed

lemma transfer_run:
  "run demo_env demo_state transfer_requests = demo_state\<lparr>notes_tbl := [renamed_row]\<rparr>"
  by (simp add: run_def step_def transfer_requests_def put_notes_id_def requireAuth_def
      insertNoteSchema_partial_def schema_defs updateNote_def bind_update_def bind_date_def
      set_columns_def Let_def demo_defs renamed_row_def)

theorem C10_witness:
  "notes_inv demo_state \<and> bills_row \<in> set (notes_tbl demo_state)
   \<and> renamed_row \<in> set (notes_tbl (run demo_env demo_state transfer_requests))
   \<and> note_id renamed_row = note_id bills_row \<and> userId renamed_row = userId bills_row"
proof -
  have 1: "notes_inv demo_state" by (simp add: notes_inv_def demo_defs)
  have 2: "bills_row \<in> set (notes_tbl demo_state)" by (simp add: demo_defs)
  have 3: "renamed_row \<in> set (notes_tbl (run demo_env demo_state transfer_requests))"
    by (simp add: transfer_run)
  have 4: "note_id renamed_row = note_id bills_row" by (simp add: renamed_row_def)
  from C10_owner_immutable [OF 1, of bills_row renamed_row demo_env transfer_requests] 1 2 3 4
  show ?thesis by blast
qed

end
